theory Spec2Isabelle
  imports Main
begin

section \<open>Strings and objects of the host language\<close>

text \<open>
  Paths, keys, page ids and hashes are strings. \<open>startsWith\<close> and \<open>str_includes\<close> are the
  string methods \<^verbatim>\<open>startsWith\<close> and \<^verbatim>\<open>includes\<close>; \<open>stripTrailingSlashes\<close> is
  \<^verbatim>\<open>replace(/\/+$/, "")\<close>.
\<close>

definition startsWith :: "string \<Rightarrow> string \<Rightarrow> bool" where
  "startsWith s pre = (take (length pre) s = pre)"

fun str_includes :: "string \<Rightarrow> string \<Rightarrow> bool" where
  "str_includes [] needle = (needle = [])"
| "str_includes (c # cs) needle = (startsWith (c # cs) needle \<or> str_includes cs needle)"

fun dropLeadingSlashes :: "string \<Rightarrow> string" where
  "dropLeadingSlashes [] = []"
| "dropLeadingSlashes (c # cs) = (if c = CHR ''/'' then dropLeadingSlashes cs else c # cs)"

definition stripTrailingSlashes :: "string \<Rightarrow> string" where
  "stripTrailingSlashes s = rev (dropLeadingSlashes (rev s))"

text \<open>Decimal rendering of a count inside a template literal.\<close>

definition digit_char :: "nat \<Rightarrow> char" where
  "digit_char d = ''0123456789'' ! d"

function show_nat :: "nat \<Rightarrow> string" where
  "show_nat n = (if n < 10 then [digit_char n] else show_nat (n div 10) @ [digit_char (n mod 10)])"
  by pat_completeness auto
termination
  by (relation "measure id") auto

text \<open>
  A \<^verbatim>\<open>Record<string, string>\<close> is an association list in the order of
  \<^verbatim>\<open>Object.entries\<close>: assignment keeps the place of an existing key and appends a new
  one, \<^verbatim>\<open>delete\<close> removes the key.
\<close>

fun obj_set :: "string \<Rightarrow> string \<Rightarrow> (string \<times> string) list \<Rightarrow> (string \<times> string) list" where
  "obj_set k v [] = [(k, v)]"
| "obj_set k v (e # es) = (if fst e = k then (k, v) # es else e # obj_set k v es)"

definition obj_delete :: "string \<Rightarrow> (string \<times> string) list \<Rightarrow> (string \<times> string) list" where
  "obj_delete k es = filter (\<lambda>e. fst e \<noteq> k) es"

text \<open>A \<^verbatim>\<open>Set<string>\<close> is a duplicate-free list in insertion order.\<close>

definition set_add :: "string \<Rightarrow> string list \<Rightarrow> string list" where
  "set_add x xs = (if x \<in> set xs then xs else xs @ [x])"

section \<open>Settings, vault objects and plugin state\<close>

datatype strategy = OnSave | Interval | Both

record settings =
  folderToPublish :: "string option"
  keyBacklink :: string
  backlinkPublishState :: "(string \<times> string) list"
  liveSyncEnabled :: bool
  liveSyncDebounceSeconds :: "int option"
  liveSyncStrategy :: "strategy option"
  liveSyncIntervalMinutes :: "int option"
  orphanCleanupIntervalHours :: "int option"
  lastOrphanCleanupTs :: "int option"
  liveSyncHashes :: "string \<rightharpoonup> string"

text \<open>
  A vault entry is a file (\<^verbatim>\<open>TFile\<close>, with its path and extension) or a folder. The
  metadata cache of a file lists its link and embed targets; every list and every
  target may be missing (\<^verbatim>\<open>?.\<close> and \<^verbatim>\<open>??\<close> in the source).
\<close>

datatype abstract_file = TFile (path: string) (extension: string) | TFolder (path: string)

record cached_metadata =
  links :: "string option list option"
  embeds :: "string option list option"

text \<open>
  What a rejected promise carries. \<open>Nullish\<close> is \<^verbatim>\<open>null\<close>, \<^verbatim>\<open>undefined\<close> or another
  falsy value that is not a string; \<open>HTTPError\<close> is the client's error class with its
  \<^verbatim>\<open>response.status\<close> and \<^verbatim>\<open>message\<close> (the class is declared in
  \<^verbatim>\<open>MyBaseClient\<close>, outside the source at hand, and is taken to extend
  \<^verbatim>\<open>Error\<close>); \<open>Thrown_string\<close> is a thrown string; \<open>Thrown_object\<close> is any other
  value, with the fields \<^verbatim>\<open>isConfluenceNotFound\<close> reads.
\<close>

record error_fields =
  instanceofError :: bool
  statusCode :: "int option"
  message :: "string option"
  body_statusCode :: "int option"
  response_status :: "int option"
  response_data_statusCode :: "int option"

datatype thrown =
    Nullish
  | HTTPError int string
  | Thrown_string string
  | Thrown_object error_fields

text \<open>One element of the publisher's result.\<close>

record file_result =
  absoluteFilePath :: string
  pageId :: "string option"
  successfulUploadResult :: "string option"
  reason :: "string option"

record failed_file =
  fileName :: string
  failReason :: string

record upload_results =
  errorMessage :: "string option"
  failedFiles :: "failed_file list"
  filesUploadResult :: "string list"

record backlink_cleanup_stats =
  deletedPaths :: "string list"
  failedDeletions :: "(string \<times> string) list"

text \<open>
  Every call the plugin makes on a collaborator is an event of the run, in order
  (console logging apart, which nothing observes).
\<close>

datatype event =
    SetTimeout int
  | ClearTimeout
  | ShowNotice string
  | DateNow int
  | DeleteContent string
  | ClearConfluencePageId string
  | PublishStart "string option"
  | PublishEnd "string option"
  | SaveData settings
  | OpenCompletedModal upload_results

text \<open>
  The plugin object: its settings, the single-flight flag, the pending queue, the armed
  debounce timer (\<open>None\<close> is \<^verbatim>\<open>null\<close>; an armed timer is told by its delay in
  milliseconds), the text of the status bar element (\<open>None\<close> while there is no
  element), whether \<^verbatim>\<open>init\<close> has created the remote client, and the events so far.
\<close>

record plugin =
  settings :: settings
  isSyncing :: bool
  liveSyncQueue :: "string list"
  liveSyncTimeout :: "int option"
  statusBarEl :: "string option"
  hasConfluenceClient :: bool
  events :: "event list"

text \<open>
  The collaborators the source calls but does not define are parameters: the key
  normalisation of \<^verbatim>\<open>backlinkUtils\<close>, the string built-ins, the hash, the vault and
  its metadata cache, the clock, the remote client and the publisher. The answers of
  the clock, the client and the publisher may depend on everything that happened
  before the call (the events so far).

  Modelled from the spec: the result shapes of these calls, which are those of the
  specification's external interfaces. A delete resolves or rejects, a publish returns
  per-file results or rejects, a read returns the content or rejects; saving the
  settings and clearing the page id cached on a document return.
\<close>

record env =
  normalizeBacklinkKey :: "string \<Rightarrow> string"
  toLowerCase :: "string \<Rightarrow> string"
  trim :: "string \<Rightarrow> string"
  md5 :: "string \<Rightarrow> string"
  jsonStringify :: "thrown \<Rightarrow> string"
  getAbstractFileByPath :: "string \<Rightarrow> abstract_file option"
  vaultRead :: "string \<Rightarrow> thrown + string"
  getMarkdownFiles :: "abstract_file list"
  getFileCache :: "string \<Rightarrow> cached_metadata option"
  dateNow :: "event list \<Rightarrow> int"
  deleteContent :: "event list \<Rightarrow> string \<Rightarrow> thrown option"
  publisherPublish :: "event list \<Rightarrow> string option \<Rightarrow> thrown + file_result list"

section \<open>Eligibility filter\<close>

definition getNormalizedBacklinkKey :: "env \<Rightarrow> plugin \<Rightarrow> string" where
  "getNormalizedBacklinkKey E p = normalizeBacklinkKey E (keyBacklink (settings p))"

definition some_matches :: "env \<Rightarrow> string \<Rightarrow> string option list option \<Rightarrow> bool" where
  "some_matches E needle targets =
     (case targets of
        None \<Rightarrow> False
      | Some ts \<Rightarrow>
          list_ex (\<lambda>t. toLowerCase E (normalizeBacklinkKey E (case t of None \<Rightarrow> [] | Some l \<Rightarrow> l))
                        = needle) ts)"

definition isFileEligibleForLiveSync :: "env \<Rightarrow> plugin \<Rightarrow> abstract_file \<Rightarrow> bool" where
  "isFileEligibleForLiveSync E p file =
     (let folderFilter = (case folderToPublish (settings p) of None \<Rightarrow> [] | Some f \<Rightarrow> trim E f);
          normalizedFolder = stripTrailingSlashes folderFilter;
          folderFilterActive = (length normalizedFolder > 0);
          normalizedKey = getNormalizedBacklinkKey E p;
          backlinkFilterActive = (length normalizedKey > 0);
          isInFolder = (if folderFilterActive
                        then path file = normalizedFolder
                             \<or> startsWith (path file) (normalizedFolder @ ''/'')
                        else False)
      in if folderFilterActive \<and> isInFolder then True
         else if folderFilterActive \<and> \<not> backlinkFilterActive then False
         else if \<not> folderFilterActive \<and> \<not> backlinkFilterActive then True
         else if \<not> backlinkFilterActive then True
         else (case getFileCache E (path file) of
                 None \<Rightarrow> False
               | Some cache \<Rightarrow>
                   (let normalizedNeedle = toLowerCase E normalizedKey;
                        matchesLinks = some_matches E normalizedNeedle (links cache)
                    in if matchesLinks then True
                       else some_matches E normalizedNeedle (embeds cache))))"

text \<open>
  The ordered rules of the eligibility filter as the specification words them, over the
  scope folder with its trailing separators stripped, the normalised key and the
  document's link and embed targets.
\<close>

definition spec_in_scope :: "string \<Rightarrow> string \<Rightarrow> bool" where
  "spec_in_scope folder docPath = (docPath = folder \<or> startsWith docPath (folder @ ''/''))"

definition spec_target_matches :: "env \<Rightarrow> string \<Rightarrow> string \<Rightarrow> bool" where
  "spec_target_matches E key target =
     (toLowerCase E (normalizeBacklinkKey E target) = toLowerCase E key)"

definition spec_isEligible :: "env \<Rightarrow> string \<Rightarrow> string \<Rightarrow> string \<Rightarrow> string list \<Rightarrow> bool" where
  "spec_isEligible E folder key docPath targets =
     (if folder \<noteq> [] \<and> spec_in_scope folder docPath then True
      else if folder \<noteq> [] \<and> key = [] then False
      else if folder = [] \<and> key = [] then True
      else if key = [] then False
      else list_ex (spec_target_matches E key) targets)"

text \<open>The link and embed targets of a document, a missing target read as the empty one.\<close>

definition targets_of :: "cached_metadata option \<Rightarrow> string list" where
  "targets_of c =
     (case c of
        None \<Rightarrow> []
      | Some cache \<Rightarrow>
          map (\<lambda>t. case t of None \<Rightarrow> [] | Some l \<Rightarrow> l)
            ((case links cache of None \<Rightarrow> [] | Some ls \<Rightarrow> ls)
             @ (case embeds cache of None \<Rightarrow> [] | Some es \<Rightarrow> es)))"

definition scope_folder :: "env \<Rightarrow> plugin \<Rightarrow> string" where
  "scope_folder E p = (case folderToPublish (settings p) of None \<Rightarrow> [] | Some f \<Rightarrow> trim E f)"

section \<open>Status bar, debounce timer and the modify listener\<close>

datatype status = Idle | Pending | Syncing

definition detail_suffix :: "nat option \<Rightarrow> string" where
  "detail_suffix detail =
     (case detail of
        None \<Rightarrow> []
      | Some n \<Rightarrow> if n = 0 then [] else '' ('' @ show_nat n @ '')'')"

definition status_label :: "status \<Rightarrow> nat option \<Rightarrow> string" where
  "status_label st detail =
     (case st of
        Pending \<Rightarrow> ''Confluence: Pending'' @ detail_suffix detail
      | Syncing \<Rightarrow> ''Confluence: Syncing'' @ detail_suffix detail
      | Idle \<Rightarrow> ''Confluence: Idle'')"

definition updateStatusBar :: "status \<Rightarrow> nat option \<Rightarrow> plugin \<Rightarrow> plugin" where
  "updateStatusBar st detail p =
     (case statusBarEl p of
        None \<Rightarrow> p
      | Some _ \<Rightarrow> p\<lparr>statusBarEl := Some (status_label st detail)\<rparr>)"

definition shouldUseOnSaveSync :: "plugin \<Rightarrow> bool" where
  "shouldUseOnSaveSync p =
     (if \<not> liveSyncEnabled (settings p) then False
      else (let strategy = (case liveSyncStrategy (settings p) of None \<Rightarrow> OnSave | Some s \<Rightarrow> s)
            in strategy = OnSave \<or> strategy = Both))"

definition scheduleLiveSync :: "int option \<Rightarrow> plugin \<Rightarrow> plugin" where
  "scheduleLiveSync delayOverride p =
     (let p1 = (case liveSyncTimeout p of
                  None \<Rightarrow> p
                | Some _ \<Rightarrow> p\<lparr>events := events p @ [ClearTimeout]\<rparr>);
          seconds = (case delayOverride of
                       Some d \<Rightarrow> d
                     | None \<Rightarrow> (case liveSyncDebounceSeconds (settings p) of
                                  Some d \<Rightarrow> d
                                | None \<Rightarrow> 5));
          delay = max 0 seconds * 1000
      in p1\<lparr>liveSyncTimeout := Some delay, events := events p1 @ [SetTimeout delay]\<rparr>)"

definition onVaultFileModified :: "env \<Rightarrow> abstract_file \<Rightarrow> plugin \<Rightarrow> plugin" where
  "onVaultFileModified E file p =
     (if \<not> liveSyncEnabled (settings p) \<or> \<not> shouldUseOnSaveSync p then p
      else (case file of
              TFolder _ \<Rightarrow> p
            | TFile fpath ext \<Rightarrow>
                if ext \<noteq> ''md'' then p
                else if \<not> isFileEligibleForLiveSync E p file then p
                else (let p1 = p\<lparr>liveSyncQueue := set_add fpath (liveSyncQueue p)\<rparr>;
                          p2 = updateStatusBar Pending (Some (length (liveSyncQueue p1))) p1
                      in scheduleLiveSync None p2)))"

section \<open>Orphan reconciliation\<close>

definition saveData :: "plugin \<Rightarrow> plugin" where
  "saveData p = p\<lparr>events := events p @ [SaveData (settings p)]\<rparr>"

definition showNotice :: "string \<Rightarrow> plugin \<Rightarrow> plugin" where
  "showNotice text p = p\<lparr>events := events p @ [ShowNotice text]\<rparr>"

text \<open>
  The backlink state always exists once \<^verbatim>\<open>loadSettings\<close> has run, so
  \<^verbatim>\<open>ensureBacklinkState\<close> returns it as it is.
\<close>

definition ensureBacklinkState :: "plugin \<Rightarrow> (string \<times> string) list" where
  "ensureBacklinkState p = backlinkPublishState (settings p)"

definition set_backlink_state :: "(string \<times> string) list \<Rightarrow> plugin \<Rightarrow> plugin" where
  "set_backlink_state st p = p\<lparr>settings := (settings p)\<lparr>backlinkPublishState := st\<rparr>\<rparr>"

definition not_found_marker :: "string \<Rightarrow> bool" where
  "not_found_marker msg =
     (str_includes msg ''NotFoundException''
      \<or> str_includes msg (CHR 0x22 # ''statusCode'' @ [CHR 0x22] @ '':404''))"

definition isConfluenceNotFound :: "thrown \<Rightarrow> bool" where
  "isConfluenceNotFound error =
     (case error of
        Nullish \<Rightarrow> False
      | HTTPError status msg \<Rightarrow> status = 404
      | Thrown_string s \<Rightarrow> if s = [] then False else not_found_marker s
      | Thrown_object f \<Rightarrow>
          if statusCode f = Some 404 then True
          else if body_statusCode f = Some 404 then True
          else if response_status f = Some 404 then True
          else if response_data_statusCode f = Some 404 then True
          else (case message f of
                  None \<Rightarrow> False
                | Some msg \<Rightarrow> if msg = [] then False else not_found_marker msg))"

definition is_Error :: "thrown \<Rightarrow> bool" where
  "is_Error error =
     (case error of
        HTTPError _ _ \<Rightarrow> True
      | Thrown_object f \<Rightarrow> instanceofError f
      | _ \<Rightarrow> False)"

definition error_message :: "thrown \<Rightarrow> string" where
  "error_message error =
     (case error of
        HTTPError _ msg \<Rightarrow> msg
      | Thrown_object f \<Rightarrow> (case message f of None \<Rightarrow> [] | Some msg \<Rightarrow> msg)
      | _ \<Rightarrow> [])"

definition deletion_reason :: "env \<Rightarrow> thrown \<Rightarrow> string" where
  "deletion_reason E error =
     (if is_Error error then error_message error else jsonStringify E error)"

text \<open>
  The two places of \<^verbatim>\<open>removeBacklinkOrphans\<close> that record a page as gone (after
  the delete resolved, and after it was rejected as not found) run the same four
  statements.
\<close>

definition record_deleted ::
  "string \<Rightarrow> plugin \<times> backlink_cleanup_stats \<times> bool \<Rightarrow> plugin \<times> backlink_cleanup_stats \<times> bool" where
  "record_deleted fpath c =
     (case c of (p, stats, mutated) \<Rightarrow>
        (let p1 = set_backlink_state (obj_delete fpath (ensureBacklinkState p)) p;
             stats1 = stats\<lparr>deletedPaths := deletedPaths stats @ [fpath]\<rparr>;
             p2 = p1\<lparr>events := events p1 @ [ClearConfluencePageId fpath]\<rparr>
         in (p2, stats1, True)))"

definition orphan_step ::
  "env \<Rightarrow> plugin \<times> backlink_cleanup_stats \<times> bool \<Rightarrow> string \<times> string
     \<Rightarrow> plugin \<times> backlink_cleanup_stats \<times> bool" where
  "orphan_step E c entry =
     (case c of (p, stats, mutated) \<Rightarrow>
      (case entry of (fpath, pid) \<Rightarrow>
        if pid = [] then (set_backlink_state (obj_delete fpath (ensureBacklinkState p)) p, stats, True)
        else (let p1 = p\<lparr>events := events p @ [DeleteContent pid]\<rparr>
              in case deleteContent E (events p) pid of
                   None \<Rightarrow> record_deleted fpath (p1, stats, mutated)
                 | Some error \<Rightarrow>
                     if isConfluenceNotFound error then record_deleted fpath (p1, stats, mutated)
                     else (p1,
                           stats\<lparr>failedDeletions :=
                                    failedDeletions stats @ [(fpath, deletion_reason E error)]\<rparr>,
                           mutated))))"

definition empty_stats :: backlink_cleanup_stats where
  "empty_stats = \<lparr>deletedPaths = [], failedDeletions = []\<rparr>"

definition staleEntries :: "string set \<Rightarrow> plugin \<Rightarrow> (string \<times> string) list" where
  "staleEntries currentEligiblePaths p =
     filter (\<lambda>e. fst e \<notin> currentEligiblePaths) (ensureBacklinkState p)"

text \<open>The \<^verbatim>\<open>for\<close> loop of \<^verbatim>\<open>removeBacklinkOrphans\<close> over the given entries.\<close>

definition orphan_pass ::
  "env \<Rightarrow> plugin \<Rightarrow> (string \<times> string) list \<Rightarrow> plugin \<times> backlink_cleanup_stats \<times> bool" where
  "orphan_pass E p entries = foldl (orphan_step E) (p, empty_stats, False) entries"

definition removeBacklinkOrphans ::
  "env \<Rightarrow> string set \<Rightarrow> plugin \<Rightarrow> backlink_cleanup_stats \<times> plugin" where
  "removeBacklinkOrphans E currentEligiblePaths p =
     (let stale = staleEntries currentEligiblePaths p
      in if length stale = 0 then (empty_stats, p)
         else if \<not> hasConfluenceClient p then (empty_stats, p)
         else (case orphan_pass E p stale of
                 (p1, stats, mutated) \<Rightarrow> (stats, if mutated then saveData p1 else p1)))"

definition notifyBacklinkCleanup :: "backlink_cleanup_stats \<Rightarrow> plugin \<Rightarrow> plugin" where
  "notifyBacklinkCleanup stats p =
     (if deletedPaths stats = [] \<and> failedDeletions stats = [] then p
      else (let removed = show_nat (length (deletedPaths stats))
                          @ '' Confluence page(s) removed after backlink removal.'';
                failed = show_nat (length (failedDeletions stats))
                         @ '' page removal(s) failed; check console logs.''
            in showNotice
                 (if deletedPaths stats \<noteq> [] \<and> failedDeletions stats \<noteq> []
                  then removed @ '' '' @ failed
                  else if deletedPaths stats \<noteq> [] then removed else failed) p))"

definition collectEligibleLiveSyncPaths :: "env \<Rightarrow> plugin \<Rightarrow> string list" where
  "collectEligibleLiveSyncPaths E p =
     map path (filter (isFileEligibleForLiveSync E p) (getMarkdownFiles E))"

definition cleanup_intervalMs :: "plugin \<Rightarrow> int" where
  "cleanup_intervalMs p =
     max 1 (case orphanCleanupIntervalHours (settings p) of None \<Rightarrow> 24 | Some h \<Rightarrow> h)
       * 60 * 60 * 1000"

definition cleanup_last :: "plugin \<Rightarrow> int" where
  "cleanup_last p = (case lastOrphanCleanupTs (settings p) of None \<Rightarrow> 0 | Some t \<Rightarrow> t)"

text \<open>
  The guard of \<^verbatim>\<open>maybeRunOrphanCleanup\<close>: the sweep is skipped when the call is not
  forced and the clock is less than the cadence past the last sweep.
\<close>

definition cleanup_skipped :: "env \<Rightarrow> bool \<Rightarrow> plugin \<Rightarrow> bool" where
  "cleanup_skipped E force p =
     (\<not> force \<and> dateNow E (events p) - cleanup_last p < cleanup_intervalMs p)"

definition run_sweep :: "env \<Rightarrow> int \<Rightarrow> plugin \<Rightarrow> plugin" where
  "run_sweep E now p =
     (let eligiblePaths = set (collectEligibleLiveSyncPaths E p)
      in case removeBacklinkOrphans E eligiblePaths p of
           (stats, p1) \<Rightarrow>
             (let p2 = (if deletedPaths stats \<noteq> [] \<or> failedDeletions stats \<noteq> []
                        then notifyBacklinkCleanup stats p1 else p1);
                  p3 = p2\<lparr>settings := (settings p2)\<lparr>lastOrphanCleanupTs := Some now\<rparr>\<rparr>
              in saveData p3))"

definition maybeRunOrphanCleanup :: "env \<Rightarrow> bool \<Rightarrow> plugin \<Rightarrow> plugin" where
  "maybeRunOrphanCleanup E force p =
     (let now = dateNow E (events p);
          p0 = p\<lparr>events := events p @ [DateNow now]\<rparr>
      in if cleanup_skipped E force p then p0 else run_sweep E now p0)"



definition delete_call :: "string \<Rightarrow> plugin \<Rightarrow> plugin" where
  "delete_call pid p = p\<lparr>events := events p @ [DeleteContent pid]\<rparr>"


section \<open>Publishing\<close>

definition truthy :: "string option \<Rightarrow> bool" where
  "truthy s = (case s of None \<Rightarrow> False | Some v \<Rightarrow> v \<noteq> [])"

definition backlink_step :: "(string \<times> string) list \<times> bool \<Rightarrow> file_result \<Rightarrow> (string \<times> string) list \<times> bool" where
  "backlink_step c result =
     (case c of (state, mutated) \<Rightarrow>
        (let fpath = absoluteFilePath result;
             dropped = (if truthy (map_of state fpath) then (obj_delete fpath state, True)
                        else (state, mutated))
         in case pageId result of
              None \<Rightarrow> dropped
            | Some pid \<Rightarrow>
                if pid = [] then dropped
                else if map_of state fpath \<noteq> Some pid then (obj_set fpath pid state, True)
                else (state, mutated)))"

definition updateBacklinkState :: "file_result list \<Rightarrow> plugin \<Rightarrow> plugin" where
  "updateBacklinkState results p =
     (case foldl backlink_step (ensureBacklinkState p, False) results of
        (state, mutated) \<Rightarrow>
          (let p1 = set_backlink_state state p in if mutated then saveData p1 else p1))"

definition upload_step :: "upload_results \<Rightarrow> file_result \<Rightarrow> upload_results" where
  "upload_step returnVal element =
     (case successfulUploadResult element of
        Some r \<Rightarrow> returnVal\<lparr>filesUploadResult := filesUploadResult returnVal @ [r]\<rparr>
      | None \<Rightarrow>
          returnVal\<lparr>failedFiles := failedFiles returnVal @
            [\<lparr>fileName = absoluteFilePath element,
              failReason = (case reason element of None \<Rightarrow> ''No Reason Provided'' | Some r \<Rightarrow> r)\<rparr>]\<rparr>)"

definition empty_results :: upload_results where
  "empty_results = \<lparr>errorMessage = None, failedFiles = [], filesUploadResult = []\<rparr>"

text \<open>
  \<^verbatim>\<open>doPublish\<close> starts the publisher's call and is suspended until the call settles:
  \<open>publisher_call\<close> is the part before the suspension, \<open>doPublish_resume\<close> the part
  after it.
\<close>

definition publisher_call :: "string option \<Rightarrow> plugin \<Rightarrow> plugin" where
  "publisher_call publishFilter p = p\<lparr>events := events p @ [PublishStart publishFilter]\<rparr>"

definition doPublish_resume ::
  "env \<Rightarrow> string option \<Rightarrow> bool option \<Rightarrow> plugin \<Rightarrow> (thrown + upload_results) \<times> plugin" where
  "doPublish_resume E publishFilter skipCleanup p =
     (let p0 = p\<lparr>events := events p @ [PublishEnd publishFilter]\<rparr>
      in case publisherPublish E (events p) publishFilter of
           Inl error \<Rightarrow> (Inl error, p0)
         | Inr adrFiles \<Rightarrow>
             (let shouldCleanup = (\<not> (case skipCleanup of
                                          Some b \<Rightarrow> b
                                        | None \<Rightarrow> truthy publishFilter));
                  p1 = (if shouldCleanup
                        then (case removeBacklinkOrphans E (set (map absoluteFilePath adrFiles)) p0 of
                                (cleanupStats, q) \<Rightarrow> notifyBacklinkCleanup cleanupStats q)
                        else p0);
                  p2 = updateBacklinkState adrFiles p1
              in (Inr (foldl upload_step empty_results adrFiles), p2)))"

definition doPublish ::
  "env \<Rightarrow> string option \<Rightarrow> bool option \<Rightarrow> plugin \<Rightarrow> (thrown + upload_results) \<times> plugin" where
  "doPublish E publishFilter skipCleanup p =
     doPublish_resume E publishFilter skipCleanup (publisher_call publishFilter p)"

text \<open>The number of publisher calls that have started and not settled.\<close>

definition publishes_in_flight :: "event list \<Rightarrow> nat" where
  "publishes_in_flight evs =
     length (filter (\<lambda>e. case e of PublishStart _ \<Rightarrow> True | _ \<Rightarrow> False) evs)
     - length (filter (\<lambda>e. case e of PublishEnd _ \<Rightarrow> True | _ \<Rightarrow> False) evs)"

text \<open>
  The ribbon callback: its part up to the suspension in \<^verbatim>\<open>doPublish\<close>, and the rest.
\<close>

definition ribbon_begin :: "plugin \<Rightarrow> plugin" where
  "ribbon_begin p =
     (if isSyncing p then showNotice ''Syncing already on going'' p
      else publisher_call None (p\<lparr>isSyncing := True\<rparr>))"

definition error_results :: "env \<Rightarrow> thrown \<Rightarrow> upload_results" where
  "error_results E error =
     \<lparr>errorMessage = Some (if is_Error error then error_message error else jsonStringify E error),
      failedFiles = [], filesUploadResult = []\<rparr>"

definition ribbon_resume :: "env \<Rightarrow> plugin \<Rightarrow> plugin" where
  "ribbon_resume E p =
     (case doPublish_resume E None None p of
        (Inr stats, p1) \<Rightarrow> p1\<lparr>events := events p1 @ [OpenCompletedModal stats], isSyncing := False\<rparr>
      | (Inl error, p1) \<Rightarrow>
          p1\<lparr>events := events p1 @ [OpenCompletedModal (error_results E error)], isSyncing := False\<rparr>)"

definition ribbon_onclick :: "env \<Rightarrow> plugin \<Rightarrow> plugin" where
  "ribbon_onclick E p = (if isSyncing p then ribbon_begin p else ribbon_resume E (ribbon_begin p))"

section \<open>Draining the queue\<close>

definition computeFileHash :: "env \<Rightarrow> string \<Rightarrow> string option" where
  "computeFileHash E fpath =
     (case getAbstractFileByPath E fpath of
        None \<Rightarrow> None
      | Some (TFolder _) \<Rightarrow> None
      | Some (TFile fp _) \<Rightarrow>
          (case vaultRead E fp of
             Inl error \<Rightarrow> None
           | Inr contents \<Rightarrow> Some (md5 E contents)))"

fun collect_targets :: "env \<Rightarrow> (string \<rightharpoonup> string) \<Rightarrow> string list \<Rightarrow> (string \<times> string) list" where
  "collect_targets E hashes [] = []"
| "collect_targets E hashes (fpath # queuedPaths) =
     (case computeFileHash E fpath of
        None \<Rightarrow> collect_targets E hashes queuedPaths
      | Some currentHash \<Rightarrow>
          if currentHash = [] then collect_targets E hashes queuedPaths
          else if hashes fpath = Some currentHash then collect_targets E hashes queuedPaths
          else (fpath, currentHash) # collect_targets E hashes queuedPaths)"

definition clearLiveSyncQueue :: "plugin \<Rightarrow> plugin" where
  "clearLiveSyncQueue p =
     (let p1 = p\<lparr>liveSyncQueue := []\<rparr>;
          p2 = (case liveSyncTimeout p1 of
                  None \<Rightarrow> p1
                | Some _ \<Rightarrow> p1\<lparr>events := events p1 @ [ClearTimeout], liveSyncTimeout := None\<rparr>)
      in if \<not> isSyncing p2 then updateStatusBar Idle None p2 else p2)"

definition live_sync_message :: "thrown \<Rightarrow> string" where
  "live_sync_message error = (if is_Error error then error_message error else ''Unknown error'')"

definition set_hash :: "string \<Rightarrow> string \<Rightarrow> plugin \<Rightarrow> plugin" where
  "set_hash fpath h p =
     p\<lparr>settings := (settings p)\<lparr>liveSyncHashes := (liveSyncHashes (settings p))(fpath \<mapsto> h)\<rparr>\<rparr>"

definition publish_target :: "env \<Rightarrow> plugin \<times> bool \<Rightarrow> string \<times> string \<Rightarrow> plugin \<times> bool" where
  "publish_target E c target =
     (case c of (p, hashesUpdated) \<Rightarrow>
        (case doPublish E (Some (fst target)) (Some True) p of
           (Inr result, p1) \<Rightarrow>
             if length (failedFiles result) = 0
             then (set_hash (fst target) (snd target) p1, True)
             else (p1, hashesUpdated)
         | (Inl error, p1) \<Rightarrow>
             (showNotice (''Live sync failed: '' @ live_sync_message error) p1, hashesUpdated)))"

text \<open>
  The drain of \<^verbatim>\<open>flushLiveSyncQueue\<close> once it holds its targets: \<open>flush_cycle_enter\<close>
  raises the flag and renders the status, which is where the first
  \<^verbatim>\<open>doPublish\<close> starts; \<open>flush_cycle\<close> is the whole \<^verbatim>\<open>try\<close> / \<^verbatim>\<open>finally\<close>.
\<close>

definition flush_cycle_enter :: "(string \<times> string) list \<Rightarrow> plugin \<Rightarrow> plugin" where
  "flush_cycle_enter targets p =
     updateStatusBar Syncing (Some (length targets)) (p\<lparr>isSyncing := True\<rparr>)"

definition flush_cycle :: "env \<Rightarrow> (string \<times> string) list \<Rightarrow> plugin \<Rightarrow> plugin" where
  "flush_cycle E targets p =
     (case foldl (publish_target E) (flush_cycle_enter targets p, False) targets of
        (p3, hashesUpdated) \<Rightarrow>
          (let p4 = (if hashesUpdated then saveData p3 else p3);
               p5 = p4\<lparr>isSyncing := False\<rparr>;
               p6 = (if length (liveSyncQueue p5) = 0 then updateStatusBar Idle None p5 else p5)
           in maybeRunOrphanCleanup E False p6))"

text \<open>
  The cycle cut at its suspension points. \<open>publish_target_resume\<close> is the rest of one
  round of the loop from the state in which the publisher's call of \<^verbatim>\<open>doPublish\<close>
  settles; between \<open>publisher_call\<close> and it other callbacks can run.
  \<open>flush_cycle_save\<close> is the save that ends the \<^verbatim>\<open>try\<close> block, and
  \<open>flush_cycle_finally\<close> the \<^verbatim>\<open>finally\<close> block up to its \<^verbatim>\<open>await\<close>.
\<close>

definition publish_target_resume :: "env \<Rightarrow> plugin \<times> bool \<Rightarrow> string \<times> string \<Rightarrow> plugin \<times> bool" where
  "publish_target_resume E c target =
     (case c of (p, hashesUpdated) \<Rightarrow>
        (case doPublish_resume E (Some (fst target)) (Some True) p of
           (Inr result, p1) \<Rightarrow>
             if length (failedFiles result) = 0
             then (set_hash (fst target) (snd target) p1, True)
             else (p1, hashesUpdated)
         | (Inl error, p1) \<Rightarrow>
             (showNotice (''Live sync failed: '' @ live_sync_message error) p1, hashesUpdated)))"

definition flush_cycle_save :: "plugin \<times> bool \<Rightarrow> plugin" where
  "flush_cycle_save c =
     (case c of (p3, hashesUpdated) \<Rightarrow> if hashesUpdated then saveData p3 else p3)"

definition flush_cycle_finally :: "plugin \<Rightarrow> plugin" where
  "flush_cycle_finally p =
     (let p5 = p\<lparr>isSyncing := False\<rparr>
      in if length (liveSyncQueue p5) = 0 then updateStatusBar Idle None p5 else p5)"

text \<open>
  \<open>flush_drain\<close> is the snapshot of the queue and the hash filter, up to the test of
  \<^verbatim>\<open>targets.length\<close>.
\<close>

definition flush_drain :: "env \<Rightarrow> plugin \<Rightarrow> (string \<times> string) list \<times> plugin" where
  "flush_drain E p =
     (let queuedPaths = liveSyncQueue p;
          p1 = p\<lparr>liveSyncQueue := []\<rparr>
      in (collect_targets E (liveSyncHashes (settings p1)) queuedPaths, p1))"

definition flushLiveSyncQueue :: "env \<Rightarrow> plugin \<Rightarrow> plugin" where
  "flushLiveSyncQueue E p =
     (if \<not> liveSyncEnabled (settings p) then clearLiveSyncQueue p
      else if length (liveSyncQueue p) = 0
      then (let p1 = maybeRunOrphanCleanup E False p
            in if \<not> isSyncing p1 then updateStatusBar Idle None p1 else p1)
      else if isSyncing p then scheduleLiveSync None p
      else (case flush_drain E p of
              (targets, p1) \<Rightarrow>
                if length targets = 0
                then updateStatusBar Idle None (maybeRunOrphanCleanup E False p1)
                else flush_cycle E targets p1))"

text \<open>The callback of the debounce timer.\<close>

definition debounce_fire :: "env \<Rightarrow> plugin \<Rightarrow> plugin" where
  "debounce_fire E p = flushLiveSyncQueue E (p\<lparr>liveSyncTimeout := None\<rparr>)"

section \<open>Observations and scenarios\<close>

text \<open>The remote deletes and the publisher calls of a run, in order.\<close>

definition delete_calls :: "event list \<Rightarrow> string list" where
  "delete_calls evs = concat (map (\<lambda>e. case e of DeleteContent pid \<Rightarrow> [pid] | _ \<Rightarrow> []) evs)"

definition publish_calls :: "event list \<Rightarrow> string option list" where
  "publish_calls evs = concat (map (\<lambda>e. case e of PublishStart f \<Rightarrow> [f] | _ \<Rightarrow> []) evs)"

definition backlinks_after :: "env \<Rightarrow> string set \<Rightarrow> plugin \<Rightarrow> (string \<times> string) list" where
  "backlinks_after E elig p = backlinkPublishState (settings (snd (removeBacklinkOrphans E elig p)))"

definition stats_after :: "env \<Rightarrow> string set \<Rightarrow> plugin \<Rightarrow> backlink_cleanup_stats" where
  "stats_after E elig p = fst (removeBacklinkOrphans E elig p)"

text \<open>The fields of the plugin that only the queue machinery writes.\<close>

definition same_control :: "plugin \<Rightarrow> plugin \<Rightarrow> bool" where
  "same_control p q =
     (isSyncing q = isSyncing p \<and> liveSyncQueue q = liveSyncQueue p
      \<and> liveSyncTimeout q = liveSyncTimeout p \<and> statusBarEl q = statusBarEl p
      \<and> hasConfluenceClient q = hasConfluenceClient p)"

text \<open>
  The settings apart from the backlink state and the cleanup timestamp.
\<close>

definition same_config :: "plugin \<Rightarrow> plugin \<Rightarrow> bool" where
  "same_config p q =
     (settings q = (settings p)\<lparr>backlinkPublishState := backlinkPublishState (settings q),
                                lastOrphanCleanupTs := lastOrphanCleanupTs (settings q)\<rparr>)"

text \<open>
  A vault with the folder \<^verbatim>\<open>Docs\<close> as scope, the note \<^verbatim>\<open>Docs/a.md\<close>, a remote that
  accepts every call, and the backlink state \<^verbatim>\<open>{A: "1", B: "2"}\<close>.
\<close>

definition demo_settings :: settings where
  "demo_settings =
     \<lparr>folderToPublish = Some ''Docs/'', keyBacklink = [],
      backlinkPublishState = [(''A'', ''1''), (''B'', ''2'')],
      liveSyncEnabled = True, liveSyncDebounceSeconds = Some 5,
      liveSyncStrategy = Some OnSave, liveSyncIntervalMinutes = Some 30,
      orphanCleanupIntervalHours = Some 24, lastOrphanCleanupTs = Some 0,
      liveSyncHashes = Map.empty\<rparr>"

definition demo_plugin :: plugin where
  "demo_plugin =
     \<lparr>settings = demo_settings, isSyncing = False, liveSyncQueue = [],
      liveSyncTimeout = None, statusBarEl = Some ''Confluence: Idle'',
      hasConfluenceClient = True, events = []\<rparr>"

definition demo_env :: env where
  "demo_env =
     \<lparr>normalizeBacklinkKey = (\<lambda>s. s), toLowerCase = (\<lambda>s. s), trim = (\<lambda>s. s),
      md5 = (\<lambda>s. ''md5:'' @ s), jsonStringify = (\<lambda>e. ''{}''),
      getAbstractFileByPath = (\<lambda>fp. if fp = ''Docs/a.md'' then Some (TFile fp ''md'') else None),
      vaultRead = (\<lambda>fp. Inr ''text''),
      getMarkdownFiles = [TFile ''Docs/a.md'' ''md''],
      getFileCache = (\<lambda>fp. None),
      dateNow = (\<lambda>evs. 100000000),
      deleteContent = (\<lambda>evs pid. None),
      publisherPublish = (\<lambda>evs f. Inr [])\<rparr>"

text \<open>The same plugin with a backlink entry that has no remote id.\<close>

definition no_id_plugin :: plugin where
  "no_id_plugin = demo_plugin\<lparr>settings := demo_settings\<lparr>backlinkPublishState := [(''A'', [])]\<rparr>\<rparr>"

text \<open>
  A remote that answers every delete with 404; and a remote that rejects the delete of
  page 2 with 500 and accepts the others, for the backlink state
  \<^verbatim>\<open>{A: "1", B: "2", C: "3"}\<close>.
\<close>

definition gone_env :: env where
  "gone_env = demo_env\<lparr>deleteContent := (\<lambda>evs pid. Some (HTTPError 404 ''Not Found''))\<rparr>"

definition flaky_env :: env where
  "flaky_env = demo_env\<lparr>deleteContent :=
     (\<lambda>evs pid. if pid = ''2'' then Some (HTTPError 500 ''Server Error'') else None)\<rparr>"

definition three_plugin :: plugin where
  "three_plugin = demo_plugin\<lparr>settings := demo_settings\<lparr>backlinkPublishState :=
     [(''A'', ''1''), (''B'', ''2''), (''C'', ''3'')]\<rparr>\<rparr>"

text \<open>
  The note \<^verbatim>\<open>Docs/a.md\<close> waiting in the queue; a vault whose reads fail; a publisher
  that uploads the note, and one that reports it as failed.
\<close>

definition queued_plugin :: plugin where
  "queued_plugin = demo_plugin\<lparr>liveSyncQueue := [''Docs/a.md'']\<rparr>"

definition io_error :: thrown where
  "io_error = Thrown_object \<lparr>instanceofError = True, statusCode = None, message = Some ''EACCES'',
     body_statusCode = None, response_status = None, response_data_statusCode = None\<rparr>"

definition unreadable_env :: env where
  "unreadable_env = demo_env\<lparr>vaultRead := (\<lambda>fp. Inl io_error)\<rparr>"

definition uploading_env :: env where
  "uploading_env = demo_env\<lparr>publisherPublish := (\<lambda>evs f.
     Inr [\<lparr>absoluteFilePath = ''Docs/a.md'', pageId = Some ''7'',
           successfulUploadResult = Some ''uploaded'', reason = None\<rparr>])\<rparr>"

definition rejecting_env :: env where
  "rejecting_env = demo_env\<lparr>publisherPublish := (\<lambda>evs f.
     Inr [\<lparr>absoluteFilePath = ''Docs/a.md'', pageId = None,
           successfulUploadResult = None, reason = Some ''upload refused''\<rparr>])\<rparr>"

text \<open>
  With strategy \<^verbatim>\<open>both\<close>: the note is modified, which arms the debounce timer; an
  interval tick (which finds the note already queued) calls \<^verbatim>\<open>flushLiveSyncQueue\<close>,
  which drains the queue, starts a cycle and is suspended in the publisher's call. The
  debounce timer is still armed.
\<close>

definition both_plugin :: plugin where
  "both_plugin = demo_plugin\<lparr>settings := demo_settings\<lparr>liveSyncStrategy := Some Both\<rparr>\<rparr>"

definition busy_plugin :: plugin where
  "busy_plugin =
     publisher_call (Some ''Docs/a.md'')
       (flush_cycle_enter [(''Docs/a.md'', ''md5:text'')]
          (snd (flush_drain demo_env
             (onVaultFileModified demo_env (TFile ''Docs/a.md'' ''md'') both_plugin))))"

text \<open>
  The live-sync cycle for \<^verbatim>\<open>Docs/a.md\<close> at the moment its \<^verbatim>\<open>doPublish\<close> is suspended
  in the publisher's call.
\<close>

definition syncing_plugin :: plugin where
  "syncing_plugin =
     publisher_call (Some ''Docs/a.md'')
       (flush_cycle_enter [(''Docs/a.md'', ''md5:text'')] (snd (flush_drain demo_env queued_plugin)))"

text \<open>
  An interleaving of the event loop. The debounce timer fires and
  \<^verbatim>\<open>flushLiveSyncQueue\<close> passes its test of \<^verbatim>\<open>isSyncing\<close>, snapshots the queue and is
  suspended in \<^verbatim>\<open>computeFileHash\<close> on the read of the file. The ribbon is clicked:
  its callback finds \<^verbatim>\<open>isSyncing\<close> false, sets it and is suspended in the publisher's
  call of \<^verbatim>\<open>doPublish()\<close>. The read completes: the flush sets \<^verbatim>\<open>isSyncing\<close> and
  starts \<^verbatim>\<open>doPublish\<close> for its first target.
\<close>

definition racing_plugin :: plugin where
  "racing_plugin =
     publisher_call (Some ''Docs/a.md'')
       (flush_cycle_enter [(''Docs/a.md'', ''md5:text'')]
          (ribbon_begin (snd (flush_drain demo_env queued_plugin))))"

text \<open>
  The live-sync cycle of \<open>syncing_plugin\<close> at its \<^verbatim>\<open>finally\<close> block: in
  \<open>finishing_plugin\<close> nothing happened while the publisher's call was pending; in
  \<open>interrupted_plugin\<close> a modify event for \<^verbatim>\<open>Docs/b.md\<close> arrived before it settled.
\<close>

definition finishing_plugin :: plugin where
  "finishing_plugin =
     flush_cycle_save
       (publish_target_resume demo_env (syncing_plugin, False) (''Docs/a.md'', ''md5:text''))"

definition interrupted_plugin :: plugin where
  "interrupted_plugin =
     flush_cycle_save
       (publish_target_resume demo_env
          (onVaultFileModified demo_env (TFile ''Docs/b.md'' ''md'') syncing_plugin, False)
          (''Docs/a.md'', ''md5:text''))"


section \<open>Results\<close>

subsection \<open>Eligibility filter\<close>

lemma some_matches_targets:
  "list_ex (spec_target_matches E key) (targets_of (Some c)) =
     (some_matches E (toLowerCase E key) (links c) \<or> some_matches E (toLowerCase E key) (embeds c))"
  by (cases "links c"; cases "embeds c")
     (simp_all add: targets_of_def some_matches_def spec_target_matches_def list_ex_iff bex_Un)

lemma isFileEligibleForLiveSync_scope:
  "isFileEligibleForLiveSync E p file =
     spec_isEligible E (stripTrailingSlashes (scope_folder E p)) (getNormalizedBacklinkKey E p)
       (path file) (targets_of (getFileCache E (path file)))"
proof (cases "getFileCache E (path file)")
  case None
  then show ?thesis
    by (simp add: isFileEligibleForLiveSync_def spec_isEligible_def spec_in_scope_def
      scope_folder_def targets_of_def Let_def)
next
  case (Some c)
  then show ?thesis
    by (auto simp: isFileEligibleForLiveSync_def spec_isEligible_def some_matches_targets
        spec_in_scope_def scope_folder_def Let_def)
qed

text \<open>
  C4. For every file and configuration \<open>isFileEligibleForLiveSync\<close> returns the result
  of the ordered rules of the eligibility filter, evaluated on the scope folder with its
  trailing separators stripped: (1) folder configured and the path equal to it or below
  it: eligible; (2) folder configured, file outside, no key: not eligible; (3) neither
  configured: eligible; (4) no key in the remaining case: not eligible; (5) otherwise
  eligible iff some normalised link or embed target equals the normalised key, compared
  in lower case. The scope folder is the configured folder, trimmed; the settings store
  it trimmed (\<^verbatim>\<open>loadSettings\<close> and the settings tab trim it), and then it is the
  configured folder itself.
\<close>

theorem isFileEligibleForLiveSync_rules:
  "isFileEligibleForLiveSync E p file =
     spec_isEligible E (stripTrailingSlashes (scope_folder E p)) (getNormalizedBacklinkKey E p)
       (path file) (targets_of (getFileCache E (path file)))
   \<and> (folderToPublish (settings p) = Some folder \<and> trim E folder = folder \<longrightarrow>
        isFileEligibleForLiveSync E p file =
          spec_isEligible E (stripTrailingSlashes folder) (getNormalizedBacklinkKey E p)
            (path file) (targets_of (getFileCache E (path file))))"
proof (intro conjI impI)
  show "isFileEligibleForLiveSync E p file =
     spec_isEligible E (stripTrailingSlashes (scope_folder E p)) (getNormalizedBacklinkKey E p)
       (path file) (targets_of (getFileCache E (path file)))"
    by (rule isFileEligibleForLiveSync_scope)
next
  assume stored: "folderToPublish (settings p) = Some folder \<and> trim E folder = folder"
  then have "scope_folder E p = folder" by (simp add: scope_folder_def)
  then show "isFileEligibleForLiveSync E p file =
          spec_isEligible E (stripTrailingSlashes folder) (getNormalizedBacklinkKey E p)
            (path file) (targets_of (getFileCache E (path file)))"
    using isFileEligibleForLiveSync_scope [of E p] by simp
qed

theorem isFileEligibleForLiveSync_rules_witness:
  "folderToPublish (settings demo_plugin) = Some ''Docs/'' \<and> trim demo_env ''Docs/'' = ''Docs/''
   \<and> stripTrailingSlashes ''Docs/'' = ''Docs''
   \<and> isFileEligibleForLiveSync demo_env demo_plugin (TFile ''Docs/a.md'' ''md'')
   \<and> spec_isEligible demo_env ''Docs'' [] ''Docs/a.md'' []
   \<and> \<not> isFileEligibleForLiveSync demo_env demo_plugin (TFile ''Other/b.md'' ''md'')
   \<and> \<not> spec_isEligible demo_env ''Docs'' [] ''Other/b.md'' []"
proof -
  have stored: "folderToPublish (settings demo_plugin) = Some ''Docs/'' \<and> trim demo_env ''Docs/'' = ''Docs/''"
    by (simp add: demo_env_def demo_plugin_def demo_settings_def)
  have strip: "stripTrailingSlashes ''Docs/'' = ''Docs''"
    by (simp add: stripTrailingSlashes_def)
  have key: "getNormalizedBacklinkKey demo_env demo_plugin = []"
    by (simp add: getNormalizedBacklinkKey_def demo_env_def demo_plugin_def demo_settings_def)
  have cache: "targets_of (getFileCache demo_env fp) = []" for fp
    by (simp add: targets_of_def demo_env_def)
  have a: "isFileEligibleForLiveSync demo_env demo_plugin (TFile ''Docs/a.md'' ''md'')
           = spec_isEligible demo_env ''Docs'' [] ''Docs/a.md'' []"
    using isFileEligibleForLiveSync_rules [of demo_env demo_plugin "TFile ''Docs/a.md'' ''md''" "''Docs/''",
        THEN conjunct2] stored
    by (simp add: strip key cache)
  have b: "isFileEligibleForLiveSync demo_env demo_plugin (TFile ''Other/b.md'' ''md'')
           = spec_isEligible demo_env ''Docs'' [] ''Other/b.md'' []"
    using isFileEligibleForLiveSync_rules [of demo_env demo_plugin "TFile ''Other/b.md'' ''md''" "''Docs/''",
        THEN conjunct2] stored
    by (simp add: strip key cache)
  have ra: "spec_isEligible demo_env ''Docs'' [] ''Docs/a.md'' []"
    by (simp add: spec_isEligible_def spec_in_scope_def startsWith_def)
  have rb: "\<not> spec_isEligible demo_env ''Docs'' [] ''Other/b.md'' []"
    by (simp add: spec_isEligible_def spec_in_scope_def startsWith_def)
  from stored strip a b ra rb show ?thesis by blast
qed

subsection \<open>The modify listener\<close>

text \<open>
  C10. When live sync is disabled, or the strategy is interval only, or the modified
  entry is a folder, or it is a file whose extension is not \<^verbatim>\<open>md\<close>,
  \<open>onVaultFileModified\<close> returns the plugin as it was: the queue, the debounce timer
  and the status are unchanged and nothing is called, also for an entry inside the
  configured folder.
\<close>

theorem onVaultFileModified_frame:
  assumes "\<not> liveSyncEnabled (settings p) \<or> liveSyncStrategy (settings p) = Some Interval
           \<or> (\<exists>fp. file = TFolder fp) \<or> (\<exists>fp ext. file = TFile fp ext \<and> ext \<noteq> ''md'')"
  shows "onVaultFileModified E file p = p"
  using assms
  by (auto simp: onVaultFileModified_def shouldUseOnSaveSync_def)

theorem onVaultFileModified_frame_witness:
  "isFileEligibleForLiveSync demo_env demo_plugin (TFile ''Docs/image.png'' ''png'')
   \<and> onVaultFileModified demo_env (TFile ''Docs/image.png'' ''png'') demo_plugin = demo_plugin
   \<and> onVaultFileModified demo_env (TFolder ''Docs'') demo_plugin = demo_plugin"
  using onVaultFileModified_frame [of demo_plugin "TFile ''Docs/image.png'' ''png''" demo_env]
    onVaultFileModified_frame [of demo_plugin "TFolder ''Docs''" demo_env]
  by (simp add: isFileEligibleForLiveSync_def demo_env_def demo_plugin_def demo_settings_def
      stripTrailingSlashes_def getNormalizedBacklinkKey_def startsWith_def)

subsection \<open>Orphan reconciliation: the loop\<close>

lemma obj_delete_filter:
  "(\<And>x. P x \<Longrightarrow> fst x \<noteq> k) \<Longrightarrow> filter P (obj_delete k bs) = filter P bs"
  by (induction bs) (auto simp: obj_delete_def)

lemma map_of_filter_key: "map_of (filter (\<lambda>x. fst x = k) bs) k = map_of bs k"
  by (induction bs) auto

lemma map_of_filter_member: "k \<in> S \<Longrightarrow> map_of (filter (\<lambda>x. fst x \<in> S) bs) k = map_of bs k"
  by (induction bs) auto

lemma map_of_obj_delete: "map_of (obj_delete k bs) k = None"
  by (induction bs) (auto simp: obj_delete_def)

lemma map_of_None_iff: "map_of bs k = None \<longleftrightarrow> k \<notin> fst ` set bs"
  by (simp add: map_of_eq_None_iff)

text \<open>One iteration of the loop, outcome by outcome.\<close>

lemma orphan_step_no_id:
  "orphan_step E (p, stats, m) (k, []) =
     (set_backlink_state (obj_delete k (ensureBacklinkState p)) p, stats, True)"
  by (simp add: orphan_step_def)

lemma orphan_step_gone:
  assumes "pid \<noteq> []"
    and "deleteContent E (events p) pid = None
         \<or> (\<exists>err. deleteContent E (events p) pid = Some err \<and> isConfluenceNotFound err)"
  shows "orphan_step E (p, stats, m) (k, pid) =
     record_deleted k (p\<lparr>events := events p @ [DeleteContent pid]\<rparr>, stats, m)"
  using assms by (auto simp: orphan_step_def Let_def)

lemma orphan_step_failed:
  assumes "pid \<noteq> []" and "deleteContent E (events p) pid = Some err"
    and "\<not> isConfluenceNotFound err"
  shows "orphan_step E (p, stats, m) (k, pid) =
     (p\<lparr>events := events p @ [DeleteContent pid]\<rparr>,
      stats\<lparr>failedDeletions := failedDeletions stats @ [(k, deletion_reason E err)]\<rparr>, m)"
  using assms by (simp add: orphan_step_def Let_def)

lemma orphan_step_filter:
  assumes "\<And>x. P x \<Longrightarrow> fst x \<noteq> fst e"
  shows "filter P (ensureBacklinkState (fst (orphan_step E c e))) = filter P (ensureBacklinkState (fst c))"
proof -
  obtain p stats m where c: "c = (p, stats, m)" by (cases c)
  obtain k pid where e: "e = (k, pid)" by (cases e)
  have del: "filter P (obj_delete k bs) = filter P bs" for bs
    using assms e by (intro obj_delete_filter) auto
  show ?thesis
    unfolding c e
    by (simp add: orphan_step_def record_deleted_def set_backlink_state_def
          ensureBacklinkState_def Let_def del split: option.splits)
qed

lemma orphan_fold_filter:
  assumes "\<And>x e. P x \<Longrightarrow> e \<in> set es \<Longrightarrow> fst x \<noteq> fst e"
  shows "filter P (ensureBacklinkState (fst (foldl (orphan_step E) c es))) = filter P (ensureBacklinkState (fst c))"
  using assms
proof (induction es arbitrary: c)
  case Nil
  then show ?case by simp
next
  case (Cons e es)
  have "filter P (ensureBacklinkState (fst (foldl (orphan_step E) (orphan_step E c e) es)))
        = filter P (ensureBacklinkState (fst (orphan_step E c e)))"
    using Cons.prems by (intro Cons.IH) auto
  also have "\<dots> = filter P (ensureBacklinkState (fst c))"
    using Cons.prems by (intro orphan_step_filter) auto
  finally show ?case by simp
qed

lemma orphan_fold_keeps_key:
  assumes "k \<notin> fst ` set es"
  shows "map_of (ensureBacklinkState (fst (foldl (orphan_step E) c es))) k
         = map_of (ensureBacklinkState (fst c)) k"
proof -
  have "filter (\<lambda>x. fst x = k) (ensureBacklinkState (fst (foldl (orphan_step E) c es)))
        = filter (\<lambda>x. fst x = k) (ensureBacklinkState (fst c))"
    using assms by (intro orphan_fold_filter) auto
  then show ?thesis by (metis map_of_filter_key)
qed

lemma orphan_step_subset:
  "set (ensureBacklinkState (fst (orphan_step E c e))) \<subseteq> set (ensureBacklinkState (fst c))"
  by (cases c; cases e)
     (auto simp: orphan_step_def record_deleted_def set_backlink_state_def
        ensureBacklinkState_def Let_def obj_delete_def split: option.splits)

lemma orphan_fold_subset:
  "set (ensureBacklinkState (fst (foldl (orphan_step E) c es))) \<subseteq> set (ensureBacklinkState (fst c))"
proof (induction es arbitrary: c)
  case Nil
  then show ?case by simp
next
  case (Cons e es)
  show ?case using Cons.IH [of "orphan_step E c e"] orphan_step_subset [of E c e] by auto
qed

lemma orphan_fold_stays_gone:
  assumes "map_of (ensureBacklinkState (fst c)) k = None"
  shows "map_of (ensureBacklinkState (fst (foldl (orphan_step E) c es))) k = None"
  using assms orphan_fold_subset [of E c es] unfolding map_of_None_iff by blast

lemma orphan_step_delete_calls:
  "delete_calls (events (fst (orphan_step E c e)))
     = delete_calls (events (fst c)) @ (if snd e = [] then [] else [snd e])"
  by (cases c; cases e)
     (auto simp: orphan_step_def record_deleted_def set_backlink_state_def
        ensureBacklinkState_def Let_def delete_calls_def split: option.splits)

lemma orphan_fold_delete_calls:
  "delete_calls (events (fst (foldl (orphan_step E) c es)))
     = delete_calls (events (fst c)) @ map snd (filter (\<lambda>e. snd e \<noteq> []) es)"
  by (induction es arbitrary: c) (simp_all add: orphan_step_delete_calls)

lemma orphan_step_events:
  "set (events (fst c)) \<subseteq> set (events (fst (orphan_step E c e)))"
  by (cases c; cases e)
     (auto simp: orphan_step_def record_deleted_def set_backlink_state_def
        Let_def split: option.splits)

lemma orphan_fold_events:
  "set (events (fst c)) \<subseteq> set (events (fst (foldl (orphan_step E) c es)))"
proof (induction es arbitrary: c)
  case Nil
  then show ?case by simp
next
  case (Cons e es)
  show ?case using Cons.IH [of "orphan_step E c e"] orphan_step_events [of c E e] by auto
qed

lemma orphan_step_deleted:
  "set (deletedPaths (fst (snd c))) \<subseteq> set (deletedPaths (fst (snd (orphan_step E c e))))
   \<and> set (deletedPaths (fst (snd (orphan_step E c e)))) \<subseteq> set (deletedPaths (fst (snd c))) \<union> {fst e}"
  by (cases c; cases e)
     (auto simp: orphan_step_def record_deleted_def Let_def split: option.splits)

lemma orphan_fold_deleted_mono:
  "set (deletedPaths (fst (snd c))) \<subseteq> set (deletedPaths (fst (snd (foldl (orphan_step E) c es))))"
proof (induction es arbitrary: c)
  case Nil
  then show ?case by simp
next
  case (Cons e es)
  show ?case using Cons.IH [of "orphan_step E c e"] orphan_step_deleted [of c E e] by auto
qed

lemma orphan_fold_deleted_bound:
  "set (deletedPaths (fst (snd (foldl (orphan_step E) c es))))
     \<subseteq> set (deletedPaths (fst (snd c))) \<union> fst ` set es"
proof (induction es arbitrary: c)
  case Nil
  then show ?case by simp
next
  case (Cons e es)
  show ?case using Cons.IH [of "orphan_step E c e"] orphan_step_deleted [of c E e] by auto
qed

lemma orphan_step_failures:
  "set (failedDeletions (fst (snd c))) \<subseteq> set (failedDeletions (fst (snd (orphan_step E c e))))
   \<and> fst ` set (failedDeletions (fst (snd (orphan_step E c e))))
       \<subseteq> fst ` set (failedDeletions (fst (snd c))) \<union> {fst e}"
  by (cases c; cases e)
     (auto simp: orphan_step_def record_deleted_def Let_def split: option.splits)

lemma orphan_fold_failures_mono:
  "set (failedDeletions (fst (snd c))) \<subseteq> set (failedDeletions (fst (snd (foldl (orphan_step E) c es))))"
proof (induction es arbitrary: c)
  case Nil
  then show ?case by simp
next
  case (Cons e es)
  show ?case using Cons.IH [of "orphan_step E c e"] orphan_step_failures [of c E e] by auto
qed

lemma orphan_fold_failures_bound:
  "fst ` set (failedDeletions (fst (snd (foldl (orphan_step E) c es))))
     \<subseteq> fst ` set (failedDeletions (fst (snd c))) \<union> fst ` set es"
proof (induction es arbitrary: c)
  case Nil
  then show ?case by simp
next
  case (Cons e es)
  have "fst ` set (failedDeletions (fst (snd (foldl (orphan_step E) (orphan_step E c e) es))))
        \<subseteq> fst ` set (failedDeletions (fst (snd (orphan_step E c e)))) \<union> fst ` set es"
    by (rule Cons.IH)
  moreover have "fst ` set (failedDeletions (fst (snd (orphan_step E c e))))
        \<subseteq> fst ` set (failedDeletions (fst (snd c))) \<union> {fst e}"
    using orphan_step_failures [of c E e] by blast
  ultimately show ?case by (simp only: foldl_Cons list.set image_insert) blast
qed

text \<open>The pass as a whole.\<close>

lemma removeBacklinkOrphans_pass:
  assumes "hasConfluenceClient p"
  shows "fst (removeBacklinkOrphans E elig p) = fst (snd (orphan_pass E p (staleEntries elig p)))"
    and "ensureBacklinkState (snd (removeBacklinkOrphans E elig p))
         = ensureBacklinkState (fst (orphan_pass E p (staleEntries elig p)))"
    and "delete_calls (events (snd (removeBacklinkOrphans E elig p)))
         = delete_calls (events (fst (orphan_pass E p (staleEntries elig p))))"
    and "set (events (fst (orphan_pass E p (staleEntries elig p))))
         \<subseteq> set (events (snd (removeBacklinkOrphans E elig p)))"
  using assms
  by (auto simp: removeBacklinkOrphans_def orphan_pass_def Let_def saveData_def
      ensureBacklinkState_def delete_calls_def split: prod.splits)

lemma orphan_pass_split:
  assumes "orphan_pass E p pre = (q, st, m)"
  shows "orphan_pass E p (pre @ e # post) = foldl (orphan_step E) (orphan_step E (q, st, m) e) post"
  using assms by (simp add: orphan_pass_def)

lemma stale_distinct:
  assumes "distinct (map fst (backlinkPublishState (settings p)))"
    and "staleEntries elig p = pre @ (k, pid) # post"
  shows "k \<notin> fst ` set pre" and "k \<notin> fst ` set post"
    and "map_of (backlinkPublishState (settings p)) k = Some pid"
proof -
  have d: "distinct (map fst (staleEntries elig p))"
    using assms(1) by (simp add: staleEntries_def ensureBacklinkState_def distinct_map_filter)
  then show "k \<notin> fst ` set pre" and "k \<notin> fst ` set post"
    unfolding assms(2) by auto
  have "(k, pid) \<in> set (staleEntries elig p)" unfolding assms(2) by simp
  then have "(k, pid) \<in> set (backlinkPublishState (settings p))"
    by (simp add: staleEntries_def ensureBacklinkState_def)
  then show "map_of (backlinkPublishState (settings p)) k = Some pid"
    using assms(1) by simp
qed

lemma record_deleted_unfold:
  "record_deleted k (p, st, m) =
     (p\<lparr>settings := (settings p)\<lparr>backlinkPublishState := obj_delete k (backlinkPublishState (settings p))\<rparr>,
        events := events p @ [ClearConfluencePageId k]\<rparr>,
      st\<lparr>deletedPaths := deletedPaths st @ [k]\<rparr>, True)"
  by (simp add: record_deleted_def Let_def set_backlink_state_def ensureBacklinkState_def)

subsection \<open>Orphan reconciliation: which entries are deleted\<close>

text \<open>
  C2 (amended). With the client present, \<open>removeBacklinkOrphans\<close> attempts a remote
  delete exactly for the entries whose path is not in \<open>currentEligiblePaths\<close> and whose
  remote id is not empty, once each and in the order of the backlink state; every entry
  whose path is in \<open>currentEligiblePaths\<close> is left as it was; an entry outside
  \<open>currentEligiblePaths\<close> with an empty remote id is removed without a remote call; and
  an entry whose delete resolves is removed from the backlink state and reported as
  deleted.
\<close>

theorem removeBacklinkOrphans_stale:
  assumes client: "hasConfluenceClient p"
  shows "delete_calls (events (snd (removeBacklinkOrphans E elig p)))
           = delete_calls (events p)
             @ map snd (filter (\<lambda>e. fst e \<notin> elig \<and> snd e \<noteq> []) (backlinkPublishState (settings p)))
     \<and> filter (\<lambda>e. fst e \<in> elig) (backlinks_after E elig p)
           = filter (\<lambda>e. fst e \<in> elig) (backlinkPublishState (settings p))
     \<and> (\<forall>k\<in>elig. map_of (backlinks_after E elig p) k = map_of (backlinkPublishState (settings p)) k)
     \<and> (\<forall>e\<in>set (backlinkPublishState (settings p)).
           fst e \<notin> elig \<and> snd e = [] \<longrightarrow> map_of (backlinks_after E elig p) (fst e) = None)
     \<and> (\<forall>pre k pid post q st m.
           staleEntries elig p = pre @ (k, pid) # post \<and> pid \<noteq> []
           \<and> orphan_pass E p pre = (q, st, m) \<and> deleteContent E (events q) pid = None
           \<longrightarrow> map_of (backlinks_after E elig p) k = None
               \<and> k \<in> set (deletedPaths (stats_after E elig p)))"
proof -
  let ?bs = "backlinkPublishState (settings p)"
  let ?stale = "staleEntries elig p"
  note pass = removeBacklinkOrphans_pass [OF client, of E elig]
  have after: "backlinks_after E elig p = ensureBacklinkState (fst (orphan_pass E p ?stale))"
    using pass(2) by (simp add: backlinks_after_def ensureBacklinkState_def)
  have calls: "delete_calls (events (snd (removeBacklinkOrphans E elig p)))
           = delete_calls (events p) @ map snd (filter (\<lambda>e. fst e \<notin> elig \<and> snd e \<noteq> []) ?bs)"
    unfolding pass(3) orphan_pass_def orphan_fold_delete_calls
    by (simp add: staleEntries_def ensureBacklinkState_def conj_commute)
  have kept: "filter (\<lambda>e. fst e \<in> elig) (backlinks_after E elig p) = filter (\<lambda>e. fst e \<in> elig) ?bs"
  proof -
    have "filter (\<lambda>e. fst e \<in> elig) (ensureBacklinkState (fst (orphan_pass E p ?stale)))
          = filter (\<lambda>e. fst e \<in> elig) (ensureBacklinkState (fst (p, empty_stats, False)))"
      unfolding orphan_pass_def
      by (rule orphan_fold_filter) (auto simp: staleEntries_def)
    then show ?thesis by (simp add: after ensureBacklinkState_def)
  qed
  have kept_map: "\<forall>k\<in>elig. map_of (backlinks_after E elig p) k = map_of ?bs k"
  proof
    fix k assume "k \<in> elig"
    then show "map_of (backlinks_after E elig p) k = map_of ?bs k"
      using kept by (metis map_of_filter_member)
  qed
  have reached: "map_of (backlinks_after E elig p) k = None
                 \<and> set (deletedPaths (fst (snd (orphan_step E (q, st, m) (k, pid)))))
                     \<subseteq> set (deletedPaths (stats_after E elig p))"
    if split: "?stale = pre @ (k, pid) # post" and q: "orphan_pass E p pre = (q, st, m)"
      and gone: "map_of (ensureBacklinkState (fst (orphan_step E (q, st, m) (k, pid)))) k = None"
    for pre k pid post q st m
  proof -
    have eq: "orphan_pass E p ?stale = foldl (orphan_step E) (orphan_step E (q, st, m) (k, pid)) post"
      unfolding split by (rule orphan_pass_split [OF q])
    show ?thesis
      unfolding after stats_after_def pass(1) eq
      using orphan_fold_stays_gone [OF gone] orphan_fold_deleted_mono by blast
  qed
  have no_id: "\<forall>e\<in>set ?bs. fst e \<notin> elig \<and> snd e = [] \<longrightarrow> map_of (backlinks_after E elig p) (fst e) = None"
  proof (intro ballI impI)
    fix e assume e: "e \<in> set ?bs" and h: "fst e \<notin> elig \<and> snd e = []"
    from h have "e = (fst e, [])" by (simp add: prod_eq_iff)
    moreover from e h have "e \<in> set ?stale"
      by (simp add: staleEntries_def ensureBacklinkState_def)
    ultimately have "(fst e, []) \<in> set ?stale" by simp
    then obtain pre post where split: "?stale = pre @ (fst e, []) # post"
      by (meson split_list)
    obtain q st m where q: "orphan_pass E p pre = (q, st, m)"
      by (cases "orphan_pass E p pre")
    have "map_of (ensureBacklinkState (fst (orphan_step E (q, st, m) (fst e, [])))) (fst e) = None"
      by (simp add: orphan_step_no_id set_backlink_state_def ensureBacklinkState_def
          map_of_obj_delete)
    from reached [OF split q this] show "map_of (backlinks_after E elig p) (fst e) = None" by simp
  qed
  have success: "\<forall>pre k pid post q st m.
           ?stale = pre @ (k, pid) # post \<and> pid \<noteq> []
           \<and> orphan_pass E p pre = (q, st, m) \<and> deleteContent E (events q) pid = None
           \<longrightarrow> map_of (backlinks_after E elig p) k = None
               \<and> k \<in> set (deletedPaths (stats_after E elig p))"
  proof (intro allI impI, elim conjE)
    fix pre k pid post q st m
    assume split: "?stale = pre @ (k, pid) # post" and pid: "pid \<noteq> []"
      and q: "orphan_pass E p pre = (q, st, m)" and ok: "deleteContent E (events q) pid = None"
    have step: "orphan_step E (q, st, m) (k, pid)
                = record_deleted k (q\<lparr>events := events q @ [DeleteContent pid]\<rparr>, st, m)"
      using pid ok by (intro orphan_step_gone) auto
    have gone: "map_of (ensureBacklinkState (fst (orphan_step E (q, st, m) (k, pid)))) k = None"
      unfolding step
      by (simp add: record_deleted_unfold ensureBacklinkState_def map_of_obj_delete)
    have "k \<in> set (deletedPaths (fst (snd (orphan_step E (q, st, m) (k, pid)))))"
      unfolding step by (simp add: record_deleted_unfold)
    with reached [OF split q gone]
    show "map_of (backlinks_after E elig p) k = None
          \<and> k \<in> set (deletedPaths (stats_after E elig p))" by blast
  qed
  from calls kept kept_map no_id success show ?thesis by blast
qed

theorem removeBacklinkOrphans_stale_witness:
  "delete_calls (events (snd (removeBacklinkOrphans demo_env {''A''} demo_plugin))) = [''2'']
   \<and> map_of (backlinks_after demo_env {''A''} demo_plugin) ''A'' = Some ''1''
   \<and> map_of (backlinks_after demo_env {''A''} demo_plugin) ''B'' = None
   \<and> ''B'' \<in> set (deletedPaths (stats_after demo_env {''A''} demo_plugin))"
proof -
  have client: "hasConfluenceClient demo_plugin" by (simp add: demo_plugin_def)
  note t = removeBacklinkOrphans_stale [OF client, of demo_env "{''A''}"]
  have stale: "staleEntries {''A''} demo_plugin = [] @ (''B'', ''2'') # []"
    by (simp add: staleEntries_def ensureBacklinkState_def demo_env_def demo_plugin_def
        demo_settings_def)
  have start: "orphan_pass demo_env demo_plugin [] = (demo_plugin, empty_stats, False)"
    by (simp add: orphan_pass_def)
  have ok: "deleteContent demo_env (events demo_plugin) ''2'' = None"
    by (simp add: demo_env_def demo_plugin_def demo_settings_def)
  have calls: "delete_calls (events (snd (removeBacklinkOrphans demo_env {''A''} demo_plugin))) = [''2'']"
    using t [THEN conjunct1] by (simp add: demo_env_def demo_plugin_def demo_settings_def
        delete_calls_def)
  have a: "map_of (backlinks_after demo_env {''A''} demo_plugin) ''A'' = Some ''1''"
    using t [THEN conjunct2, THEN conjunct2, THEN conjunct1] by (simp add: demo_env_def
        demo_plugin_def demo_settings_def)
  have b: "map_of (backlinks_after demo_env {''A''} demo_plugin) ''B'' = None
           \<and> ''B'' \<in> set (deletedPaths (stats_after demo_env {''A''} demo_plugin))"
    using t [THEN conjunct2, THEN conjunct2, THEN conjunct2, THEN conjunct2] stale start ok
    by blast
  from calls a b show ?thesis by blast
qed

text \<open>
  The claim as stated fails on an entry without a remote id: with the backlink state
  \<^verbatim>\<open>{A: ""}\<close> and no eligible path, the entry for A is not one the claim calls stale
  (its remote id is empty) and no delete is attempted, yet the entry is removed.
\<close>

theorem removeBacklinkOrphans_stale_counterexample:
  "hasConfluenceClient no_id_plugin
   \<and> backlinkPublishState (settings no_id_plugin) = [(''A'', [])]
   \<and> delete_calls (events (snd (removeBacklinkOrphans demo_env {} no_id_plugin))) = []
   \<and> backlinks_after demo_env {} no_id_plugin = []"
  by (simp add: demo_env_def demo_plugin_def demo_settings_def no_id_plugin_def
      removeBacklinkOrphans_def staleEntries_def orphan_pass_def orphan_step_def
      record_deleted_def set_backlink_state_def ensureBacklinkState_def empty_stats_def Let_def
      obj_delete_def saveData_def backlinks_after_def stats_after_def delete_calls_def)

subsection \<open>Orphan reconciliation: rejected deletes\<close>

lemma isConfluenceNotFound_shapes:
  "isConfluenceNotFound (HTTPError 404 msg)"
  "statusCode f = Some 404 \<Longrightarrow> isConfluenceNotFound (Thrown_object f)"
  "body_statusCode f = Some 404 \<Longrightarrow> isConfluenceNotFound (Thrown_object f)"
  "response_status f = Some 404 \<Longrightarrow> isConfluenceNotFound (Thrown_object f)"
  "response_data_statusCode f = Some 404 \<Longrightarrow> isConfluenceNotFound (Thrown_object f)"
  "message f = Some msg \<Longrightarrow> not_found_marker msg \<Longrightarrow> isConfluenceNotFound (Thrown_object f)"
  "not_found_marker msg \<Longrightarrow> isConfluenceNotFound (Thrown_string msg)"
  by (auto simp: isConfluenceNotFound_def not_found_marker_def)

lemma orphan_pass_failures_bound:
  assumes "orphan_pass E p pre = (q, st, m)"
  shows "fst ` set (failedDeletions st) \<subseteq> fst ` set pre"
  using orphan_fold_failures_bound [of E "(p, empty_stats, False)" pre] assms
  by (simp add: orphan_pass_def empty_stats_def)

lemma orphan_pass_deleted_bound:
  assumes "orphan_pass E p pre = (q, st, m)"
  shows "set (deletedPaths st) \<subseteq> fst ` set pre"
  using orphan_fold_deleted_bound [of E "(p, empty_stats, False)" pre] assms
  by (simp add: orphan_pass_def empty_stats_def)

lemma orphan_pass_keeps_key:
  assumes "orphan_pass E p pre = (q, st, m)" and "k \<notin> fst ` set pre"
  shows "map_of (backlinkPublishState (settings q)) k = map_of (backlinkPublishState (settings p)) k"
  using orphan_fold_keeps_key [OF assms(2), of E "(p, empty_stats, False)"] assms(1)
  by (simp add: orphan_pass_def ensureBacklinkState_def)

text \<open>
  C6. When the remote delete of a stale entry is rejected with an error that
  \<open>isConfluenceNotFound\<close> classifies as not found (the shapes of
  \<open>isConfluenceNotFound_shapes\<close>), the iteration does exactly what it does when the
  delete resolves: at the end of the pass the path has no mapping in the backlink
  state, the page id cached on the document has been cleared, and the path is in
  \<open>deletedPaths\<close> and not in \<open>failedDeletions\<close>.
\<close>

theorem not_found_is_success:
  assumes client: "hasConfluenceClient p"
    and keys: "distinct (map fst (backlinkPublishState (settings p)))"
    and split: "staleEntries elig p = pre @ (k, pid) # post"
    and pid: "pid \<noteq> []"
    and q: "orphan_pass E p pre = (q, st, m)"
    and rejected: "deleteContent E (events q) pid = Some err"
    and nf: "isConfluenceNotFound err"
  shows "orphan_step E (q, st, m) (k, pid)
           = orphan_step (E\<lparr>deleteContent := (\<lambda>evs i. None)\<rparr>) (q, st, m) (k, pid)
     \<and> map_of (backlinks_after E elig p) k = None
     \<and> ClearConfluencePageId k \<in> set (events (snd (removeBacklinkOrphans E elig p)))
     \<and> k \<in> set (deletedPaths (stats_after E elig p))
     \<and> k \<notin> fst ` set (failedDeletions (stats_after E elig p))"
proof -
  let ?c = "orphan_step E (q, st, m) (k, pid)"
  note pass = removeBacklinkOrphans_pass [OF client, of E elig]
  have step: "?c = record_deleted k (q\<lparr>events := events q @ [DeleteContent pid]\<rparr>, st, m)"
    using pid rejected nf by (intro orphan_step_gone) auto
  have same: "?c = orphan_step (E\<lparr>deleteContent := (\<lambda>evs i. None)\<rparr>) (q, st, m) (k, pid)"
    unfolding step using pid by (simp add: orphan_step_def Let_def)
  have eq: "orphan_pass E p (staleEntries elig p) = foldl (orphan_step E) ?c post"
    unfolding split by (rule orphan_pass_split [OF q])
  have "map_of (ensureBacklinkState (fst ?c)) k = None"
    unfolding step by (simp add: record_deleted_unfold ensureBacklinkState_def map_of_obj_delete)
  then have gone: "map_of (backlinks_after E elig p) k = None"
    unfolding backlinks_after_def pass(2) [unfolded ensureBacklinkState_def] eq
    using orphan_fold_stays_gone [of ?c k E post] by (simp add: ensureBacklinkState_def)
  have "ClearConfluencePageId k \<in> set (events (fst ?c))"
    unfolding step by (simp add: record_deleted_unfold)
  then have cleared: "ClearConfluencePageId k \<in> set (events (snd (removeBacklinkOrphans E elig p)))"
    using pass(4) orphan_fold_events [of ?c E post] unfolding eq by blast
  have "k \<in> set (deletedPaths (fst (snd ?c)))"
    unfolding step by (simp add: record_deleted_unfold)
  then have deleted: "k \<in> set (deletedPaths (stats_after E elig p))"
    unfolding stats_after_def pass(1) eq using orphan_fold_deleted_mono [of ?c E post] by blast
  have "fst ` set (failedDeletions (fst (snd ?c))) \<subseteq> fst ` set pre"
    unfolding step using orphan_pass_failures_bound [OF q] by (simp add: record_deleted_unfold)
  then have "fst ` set (failedDeletions (stats_after E elig p)) \<subseteq> fst ` set pre \<union> fst ` set post"
    unfolding stats_after_def pass(1) eq using orphan_fold_failures_bound [of E ?c post] by blast
  then have not_failed: "k \<notin> fst ` set (failedDeletions (stats_after E elig p))"
    using stale_distinct(1,2) [OF keys split] by blast
  from same gone cleared deleted not_failed show ?thesis by blast
qed

theorem not_found_is_success_witness:
  "isConfluenceNotFound (HTTPError 404 ''Not Found'')
   \<and> map_of (backlinks_after gone_env {''A''} demo_plugin) ''B'' = None
   \<and> ClearConfluencePageId ''B'' \<in> set (events (snd (removeBacklinkOrphans gone_env {''A''} demo_plugin)))
   \<and> ''B'' \<in> set (deletedPaths (stats_after gone_env {''A''} demo_plugin))
   \<and> failedDeletions (stats_after gone_env {''A''} demo_plugin) = []"
proof -
  have client: "hasConfluenceClient demo_plugin" by (simp add: demo_env_def demo_plugin_def
      demo_settings_def gone_env_def)
  have keys: "distinct (map fst (backlinkPublishState (settings demo_plugin)))"
    by (simp add: demo_env_def demo_plugin_def demo_settings_def gone_env_def)
  have split: "staleEntries {''A''} demo_plugin = [] @ (''B'', ''2'') # []"
    by (simp add: staleEntries_def ensureBacklinkState_def demo_env_def demo_plugin_def
        demo_settings_def gone_env_def)
  have pid: "''2'' \<noteq> []" by simp
  have q: "orphan_pass gone_env demo_plugin [] = (demo_plugin, empty_stats, False)"
    by (simp add: orphan_pass_def)
  have rejected: "deleteContent gone_env (events demo_plugin) ''2'' = Some (HTTPError 404 ''Not Found'')"
    by (simp add: demo_env_def demo_plugin_def demo_settings_def gone_env_def)
  have nf: "isConfluenceNotFound (HTTPError 404 ''Not Found'')"
    by (simp add: isConfluenceNotFound_def)
  note t = not_found_is_success [OF client keys split pid q rejected nf]
  have none: "failedDeletions (stats_after gone_env {''A''} demo_plugin) = []"
    by (simp add: demo_env_def demo_plugin_def demo_settings_def gone_env_def
        removeBacklinkOrphans_def staleEntries_def orphan_pass_def orphan_step_def
        record_deleted_def set_backlink_state_def ensureBacklinkState_def empty_stats_def
        Let_def obj_delete_def saveData_def backlinks_after_def stats_after_def delete_calls_def
        isConfluenceNotFound_def)
  from t nf none show ?thesis by blast
qed

text \<open>
  C8. When the remote delete of a stale entry is rejected with an error that is not
  classified as not found, the pass leaves the entry's mapping as it was, records the
  path with its reason (the error's message, or its JSON text) in \<open>failedDeletions\<close> and
  not in \<open>deletedPaths\<close>, calls the remote once for that entry, and goes on with the
  remaining stale entries.
\<close>

theorem failed_delete_keeps_entry:
  assumes client: "hasConfluenceClient p"
    and keys: "distinct (map fst (backlinkPublishState (settings p)))"
    and split: "staleEntries elig p = pre @ (k, pid) # post"
    and pid: "pid \<noteq> []"
    and q: "orphan_pass E p pre = (q, st, m)"
    and rejected: "deleteContent E (events q) pid = Some err"
    and other: "\<not> isConfluenceNotFound err"
  shows "map_of (backlinks_after E elig p) k = Some pid
     \<and> (k, deletion_reason E err) \<in> set (failedDeletions (stats_after E elig p))
     \<and> k \<notin> set (deletedPaths (stats_after E elig p))
     \<and> delete_calls (events (snd (removeBacklinkOrphans E elig p)))
         = delete_calls (events p) @ map snd (filter (\<lambda>e. snd e \<noteq> []) pre) @ [pid]
           @ map snd (filter (\<lambda>e. snd e \<noteq> []) post)
     \<and> k \<notin> fst ` set pre \<and> k \<notin> fst ` set post
     \<and> orphan_pass E p (staleEntries elig p)
         = foldl (orphan_step E)
             (q\<lparr>events := events q @ [DeleteContent pid]\<rparr>,
              st\<lparr>failedDeletions := failedDeletions st @ [(k, deletion_reason E err)]\<rparr>, m) post"
proof -
  let ?c = "(q\<lparr>events := events q @ [DeleteContent pid]\<rparr>,
             st\<lparr>failedDeletions := failedDeletions st @ [(k, deletion_reason E err)]\<rparr>, m)"
  note pass = removeBacklinkOrphans_pass [OF client, of E elig]
  note once = stale_distinct [OF keys split]
  have step: "orphan_step E (q, st, m) (k, pid) = ?c"
    using pid rejected other by (rule orphan_step_failed)
  have eq: "orphan_pass E p (staleEntries elig p) = foldl (orphan_step E) ?c post"
    using orphan_pass_split [OF q, of "(k, pid)" post] unfolding split step .
  have "map_of (ensureBacklinkState (fst (foldl (orphan_step E) ?c post))) k
        = map_of (ensureBacklinkState (fst ?c)) k"
    using once(2) by (rule orphan_fold_keeps_key)
  also have "\<dots> = map_of (backlinkPublishState (settings p)) k"
    using orphan_pass_keeps_key [OF q once(1)] by (simp add: ensureBacklinkState_def)
  finally have kept: "map_of (backlinks_after E elig p) k = Some pid"
    unfolding backlinks_after_def pass(2) [unfolded ensureBacklinkState_def] eq
    using once(3) by (simp add: ensureBacklinkState_def)
  have "(k, deletion_reason E err) \<in> set (failedDeletions (fst (snd ?c)))" by simp
  then have failed: "(k, deletion_reason E err) \<in> set (failedDeletions (stats_after E elig p))"
    unfolding stats_after_def pass(1) eq using orphan_fold_failures_mono [of ?c E post] by blast
  have "set (deletedPaths (fst (snd ?c))) \<subseteq> fst ` set pre"
    using orphan_pass_deleted_bound [OF q] by simp
  then have "set (deletedPaths (stats_after E elig p)) \<subseteq> fst ` set pre \<union> fst ` set post"
    unfolding stats_after_def pass(1) eq using orphan_fold_deleted_bound [of E ?c post] by blast
  then have not_deleted: "k \<notin> set (deletedPaths (stats_after E elig p))"
    using once(1,2) by blast
  have calls: "delete_calls (events (snd (removeBacklinkOrphans E elig p)))
         = delete_calls (events p) @ map snd (filter (\<lambda>e. snd e \<noteq> []) pre) @ [pid]
           @ map snd (filter (\<lambda>e. snd e \<noteq> []) post)"
    unfolding pass(3) split orphan_pass_def orphan_fold_delete_calls using pid by simp
  from kept failed not_deleted calls once(1,2) eq show ?thesis by blast
qed

theorem failed_delete_keeps_entry_witness:
  "\<not> isConfluenceNotFound (HTTPError 500 ''Server Error'')
   \<and> backlinks_after flaky_env {''A''} three_plugin = [(''A'', ''1''), (''B'', ''2'')]
   \<and> failedDeletions (stats_after flaky_env {''A''} three_plugin) = [(''B'', ''Server Error'')]
   \<and> deletedPaths (stats_after flaky_env {''A''} three_plugin) = [''C'']
   \<and> delete_calls (events (snd (removeBacklinkOrphans flaky_env {''A''} three_plugin))) = [''2'', ''3'']"
proof -
  have client: "hasConfluenceClient three_plugin" by (simp add: demo_env_def demo_plugin_def
      demo_settings_def flaky_env_def three_plugin_def)
  have keys: "distinct (map fst (backlinkPublishState (settings three_plugin)))"
    by (simp add: demo_env_def demo_plugin_def demo_settings_def flaky_env_def three_plugin_def)
  have split: "staleEntries {''A''} three_plugin = [] @ (''B'', ''2'') # [(''C'', ''3'')]"
    by (simp add: staleEntries_def ensureBacklinkState_def demo_env_def demo_plugin_def
        demo_settings_def flaky_env_def three_plugin_def)
  have pid: "''2'' \<noteq> []" by simp
  have q: "orphan_pass flaky_env three_plugin [] = (three_plugin, empty_stats, False)"
    by (simp add: orphan_pass_def)
  have rejected: "deleteContent flaky_env (events three_plugin) ''2'' = Some (HTTPError 500 ''Server Error'')"
    by (simp add: demo_env_def demo_plugin_def demo_settings_def flaky_env_def three_plugin_def)
  have other: "\<not> isConfluenceNotFound (HTTPError 500 ''Server Error'')"
    by (simp add: isConfluenceNotFound_def)
  note t = failed_delete_keeps_entry [OF client keys split pid q rejected other]
  have calls: "delete_calls (events (snd (removeBacklinkOrphans flaky_env {''A''} three_plugin))) = [''2'', ''3'']"
    using t [THEN conjunct2, THEN conjunct2, THEN conjunct2, THEN conjunct1]
    by (simp add: demo_env_def demo_plugin_def demo_settings_def flaky_env_def three_plugin_def
        delete_calls_def)
  have rest: "backlinks_after flaky_env {''A''} three_plugin = [(''A'', ''1''), (''B'', ''2'')]
     \<and> failedDeletions (stats_after flaky_env {''A''} three_plugin) = [(''B'', ''Server Error'')]
     \<and> deletedPaths (stats_after flaky_env {''A''} three_plugin) = [''C'']"
    by (simp add: demo_env_def demo_plugin_def demo_settings_def flaky_env_def three_plugin_def
        removeBacklinkOrphans_def staleEntries_def orphan_pass_def orphan_step_def
        record_deleted_def set_backlink_state_def ensureBacklinkState_def empty_stats_def
        Let_def obj_delete_def saveData_def backlinks_after_def stats_after_def delete_calls_def
        isConfluenceNotFound_def deletion_reason_def
        is_Error_def error_message_def)
  from other calls rest show ?thesis by blast
qed

subsection \<open>What the cleanup leaves alone\<close>

lemma same_control_refl: "same_control p p"
  by (simp add: same_control_def)

lemma same_control_trans: "same_control p q \<Longrightarrow> same_control q r \<Longrightarrow> same_control p r"
  by (simp add: same_control_def)

lemma same_config_refl: "same_config p p"
  by (simp add: same_config_def)

lemma same_config_trans:
  assumes "same_config p q" and "same_config q r"
  shows "same_config p r"
proof -
  have "settings r = (settings q)\<lparr>backlinkPublishState := backlinkPublishState (settings r),
          lastOrphanCleanupTs := lastOrphanCleanupTs (settings r)\<rparr>"
    using assms(2) by (simp add: same_config_def)
  also have "settings q = (settings p)\<lparr>backlinkPublishState := backlinkPublishState (settings q),
          lastOrphanCleanupTs := lastOrphanCleanupTs (settings q)\<rparr>"
    using assms(1) by (simp add: same_config_def)
  finally show ?thesis by (simp add: same_config_def)
qed

lemma same_config_fields:
  assumes "same_config p q"
  shows "liveSyncHashes (settings q) = liveSyncHashes (settings p)"
    and "orphanCleanupIntervalHours (settings q) = orphanCleanupIntervalHours (settings p)"
    and "liveSyncEnabled (settings q) = liveSyncEnabled (settings p)"
    and "liveSyncDebounceSeconds (settings q) = liveSyncDebounceSeconds (settings p)"
    and "folderToPublish (settings q) = folderToPublish (settings p)"
    and "keyBacklink (settings q) = keyBacklink (settings p)"
proof -
  have eq: "settings q = (settings p)\<lparr>backlinkPublishState := backlinkPublishState (settings q),
          lastOrphanCleanupTs := lastOrphanCleanupTs (settings q)\<rparr>"
    using assms by (simp add: same_config_def)
  show "liveSyncHashes (settings q) = liveSyncHashes (settings p)" by (subst eq) simp
  show "orphanCleanupIntervalHours (settings q) = orphanCleanupIntervalHours (settings p)" by (subst eq) simp
  show "liveSyncEnabled (settings q) = liveSyncEnabled (settings p)" by (subst eq) simp
  show "liveSyncDebounceSeconds (settings q) = liveSyncDebounceSeconds (settings p)" by (subst eq) simp
  show "folderToPublish (settings q) = folderToPublish (settings p)" by (subst eq) simp
  show "keyBacklink (settings q) = keyBacklink (settings p)" by (subst eq) simp
qed

text \<open>What an orphan pass leaves alone.\<close>

lemma orphan_step_frame:
  "same_control (fst c) (fst (orphan_step E c e))
   \<and> same_config (fst c) (fst (orphan_step E c e))
   \<and> publish_calls (events (fst (orphan_step E c e))) = publish_calls (events (fst c))"
  by (cases c; cases e)
     (auto simp: orphan_step_def record_deleted_def set_backlink_state_def Let_def
        same_control_def same_config_def publish_calls_def split: option.splits)

lemma orphan_fold_frame:
  "same_control (fst c) (fst (foldl (orphan_step E) c es))
   \<and> same_config (fst c) (fst (foldl (orphan_step E) c es))
   \<and> publish_calls (events (fst (foldl (orphan_step E) c es))) = publish_calls (events (fst c))"
proof (induction es arbitrary: c)
  case Nil
  show ?case by (simp add: same_control_refl same_config_refl)
next
  case (Cons e es)
  from Cons.IH [of "orphan_step E c e"] orphan_step_frame [of c E e]
  show ?case
    by (auto intro: same_control_trans same_config_trans)
qed

lemma saveData_frame:
  "same_control p (saveData p) \<and> same_config p (saveData p)
   \<and> publish_calls (events (saveData p)) = publish_calls (events p)"
  by (simp add: saveData_def same_control_def same_config_def publish_calls_def)

lemma removeBacklinkOrphans_frame:
  "same_control p (snd (removeBacklinkOrphans E elig p))
   \<and> same_config p (snd (removeBacklinkOrphans E elig p))
   \<and> publish_calls (events (snd (removeBacklinkOrphans E elig p))) = publish_calls (events p)"
proof -
  obtain q st m where pass: "orphan_pass E p (staleEntries elig p) = (q, st, m)"
    by (cases "orphan_pass E p (staleEntries elig p)")
  have q: "same_control p q \<and> same_config p q \<and> publish_calls (events q) = publish_calls (events p)"
    using orphan_fold_frame [of "(p, empty_stats, False)" E "staleEntries elig p"] pass
    by (simp add: orphan_pass_def)
  show ?thesis
    using q saveData_frame [of q]
    by (auto simp: removeBacklinkOrphans_def Let_def pass same_control_refl same_config_refl
        intro: same_control_trans same_config_trans)
qed

lemma notifyBacklinkCleanup_frame:
  "same_control p (notifyBacklinkCleanup stats p) \<and> same_config p (notifyBacklinkCleanup stats p)
   \<and> publish_calls (events (notifyBacklinkCleanup stats p)) = publish_calls (events p)
   \<and> delete_calls (events (notifyBacklinkCleanup stats p)) = delete_calls (events p)"
  by (simp add: notifyBacklinkCleanup_def showNotice_def Let_def same_control_def same_config_def
      publish_calls_def delete_calls_def)


lemma isFileEligibleForLiveSync_config:
  assumes "same_config p q"
  shows "isFileEligibleForLiveSync E q = isFileEligibleForLiveSync E p"
  using same_config_fields(5,6) [OF assms]
  by (intro ext) (simp add: isFileEligibleForLiveSync_def getNormalizedBacklinkKey_def)

lemma run_sweep_frame:
  "same_control p (run_sweep E now p) \<and> same_config p (run_sweep E now p)
   \<and> publish_calls (events (run_sweep E now p)) = publish_calls (events p)
   \<and> lastOrphanCleanupTs (settings (run_sweep E now p)) = Some now"
proof -
  let ?elig = "set (collectEligibleLiveSyncPaths E p)"
  obtain stats p1 where r: "removeBacklinkOrphans E ?elig p = (stats, p1)"
    by (cases "removeBacklinkOrphans E ?elig p")
  have p1: "same_control p p1 \<and> same_config p p1 \<and> publish_calls (events p1) = publish_calls (events p)"
    using removeBacklinkOrphans_frame [of p E ?elig] r by simp
  define p2 where "p2 = (if deletedPaths stats \<noteq> [] \<or> failedDeletions stats \<noteq> []
                        then notifyBacklinkCleanup stats p1 else p1)"
  have p2: "same_control p p2 \<and> same_config p p2 \<and> publish_calls (events p2) = publish_calls (events p)"
    using p1 notifyBacklinkCleanup_frame [of p1 stats]
    by (auto simp: p2_def intro: same_control_trans same_config_trans)
  have eq: "run_sweep E now p = saveData (p2\<lparr>settings := (settings p2)\<lparr>lastOrphanCleanupTs := Some now\<rparr>\<rparr>)"
    by (simp add: run_sweep_def r p2_def Let_def)
  have cfg: "same_config p2 (saveData (p2\<lparr>settings := (settings p2)\<lparr>lastOrphanCleanupTs := Some now\<rparr>\<rparr>))"
    by (simp add: same_config_def saveData_def)
  show ?thesis
    unfolding eq using p2 cfg
    by (auto simp: saveData_def same_control_def publish_calls_def intro: same_config_trans)
qed


lemma maybeRunOrphanCleanup_frame:
  "same_control p (maybeRunOrphanCleanup E force p) \<and> same_config p (maybeRunOrphanCleanup E force p)
   \<and> publish_calls (events (maybeRunOrphanCleanup E force p)) = publish_calls (events p)"
proof -
  let ?p0 = "p\<lparr>events := events p @ [DateNow (dateNow E (events p))]\<rparr>"
  have p0: "same_control p ?p0 \<and> same_config p ?p0 \<and> publish_calls (events ?p0) = publish_calls (events p)"
    by (simp add: same_control_def same_config_def publish_calls_def)
  show ?thesis
    using p0 run_sweep_frame [of ?p0 E "dateNow E (events p)"]
    by (auto simp: maybeRunOrphanCleanup_def Let_def intro: same_control_trans same_config_trans)
qed

subsection \<open>Cleanup cooldown\<close>



lemma orphan_step_cut:
  assumes "pid \<noteq> []"
  shows "orphan_step E (p, stats, mutated) (fpath, pid) =
     (case deleteContent E (events p) pid of
        None \<Rightarrow> record_deleted fpath (delete_call pid p, stats, mutated)
      | Some error \<Rightarrow>
          if isConfluenceNotFound error then record_deleted fpath (delete_call pid p, stats, mutated)
          else (delete_call pid p,
                stats\<lparr>failedDeletions := failedDeletions stats @ [(fpath, deletion_reason E error)]\<rparr>,
                mutated))"
  using assms by (simp add: orphan_step_def delete_call_def Let_def split: option.splits)





subsection \<open>What a publish leaves alone\<close>

lemma updateBacklinkState_frame:
  "same_control p (updateBacklinkState results p) \<and> same_config p (updateBacklinkState results p)
   \<and> publish_calls (events (updateBacklinkState results p)) = publish_calls (events p)"
  by (cases "foldl backlink_step (ensureBacklinkState p, False) results")
     (simp add: updateBacklinkState_def set_backlink_state_def saveData_def Let_def
        same_control_def same_config_def publish_calls_def)

lemma doPublish_frame:
  "same_control p (snd (doPublish E f skip p)) \<and> same_config p (snd (doPublish E f skip p))
   \<and> publish_calls (events (snd (doPublish E f skip p))) = publish_calls (events p) @ [f]"
proof -
  let ?p0 = "p\<lparr>events := events p @ [PublishStart f, PublishEnd f]\<rparr>"
  have p0: "same_control p ?p0 \<and> same_config p ?p0
            \<and> publish_calls (events ?p0) = publish_calls (events p) @ [f]"
    by (simp add: same_control_def same_config_def publish_calls_def)
  show ?thesis
  proof (cases "publisherPublish E (events p @ [PublishStart f]) f")
    case (Inl err)
    then show ?thesis
      using p0 by (simp add: doPublish_def doPublish_resume_def publisher_call_def Let_def)
  next
    case (Inr adrFiles)
    let ?elig = "set (map absoluteFilePath adrFiles)"
    define p1 where "p1 = (if \<not> (case skip of Some b \<Rightarrow> b | None \<Rightarrow> truthy f)
                           then (case removeBacklinkOrphans E ?elig ?p0 of
                                   (cleanupStats, q) \<Rightarrow> notifyBacklinkCleanup cleanupStats q)
                           else ?p0)"
    have p1: "same_control p p1 \<and> same_config p p1
              \<and> publish_calls (events p1) = publish_calls (events p) @ [f]"
    proof (cases "\<not> (case skip of Some b \<Rightarrow> b | None \<Rightarrow> truthy f)")
      case True
      obtain st q where r: "removeBacklinkOrphans E ?elig ?p0 = (st, q)"
        by (cases "removeBacklinkOrphans E ?elig ?p0")
      have "same_control ?p0 q \<and> same_config ?p0 q \<and> publish_calls (events q) = publish_calls (events ?p0)"
        using removeBacklinkOrphans_frame [of ?p0 E ?elig] r by simp
      with p0 notifyBacklinkCleanup_frame [of q st] True show ?thesis
        unfolding p1_def r
        by (auto intro: same_control_trans same_config_trans)
    next
      case False
      with p0 show ?thesis unfolding p1_def by simp
    qed
    have eq: "snd (doPublish E f skip p) = updateBacklinkState adrFiles p1"
      using Inr by (simp add: doPublish_def doPublish_resume_def publisher_call_def Let_def p1_def)
    show ?thesis
      unfolding eq using p1 updateBacklinkState_frame [of p1 adrFiles]
      by (auto intro: same_control_trans same_config_trans)
  qed
qed

lemma doPublish_hashes:
  "liveSyncHashes (settings (snd (doPublish E f skip p))) = liveSyncHashes (settings p)"
  using doPublish_frame [of p E f skip] by (simp add: same_config_fields(1))

lemma publish_target_frame:
  "same_control (fst c) (fst (publish_target E c t))
   \<and> publish_calls (events (fst (publish_target E c t))) = publish_calls (events (fst c)) @ [Some (fst t)]
   \<and> (\<forall>k. k \<noteq> fst t \<longrightarrow> liveSyncHashes (settings (fst (publish_target E c t))) k
                              = liveSyncHashes (settings (fst c)) k)"
proof -
  obtain p u where c: "c = (p, u)" by (cases c)
  obtain r p1 where d: "doPublish E (Some (fst t)) (Some True) p = (r, p1)"
    by (cases "doPublish E (Some (fst t)) (Some True) p")
  have p1: "same_control p p1 \<and> publish_calls (events p1) = publish_calls (events p) @ [Some (fst t)]
            \<and> liveSyncHashes (settings p1) = liveSyncHashes (settings p)"
    using doPublish_frame [of p E "Some (fst t)" "Some True"] doPublish_hashes [of E "Some (fst t)" "Some True" p] d
    by simp
  show ?thesis
    using p1 unfolding c
    by (cases r)
       (auto simp: publish_target_def d set_hash_def showNotice_def same_control_def
           publish_calls_def)
qed

lemma publish_fold_frame:
  "same_control (fst c) (fst (foldl (publish_target E) c ts))
   \<and> publish_calls (events (fst (foldl (publish_target E) c ts)))
       = publish_calls (events (fst c)) @ map (\<lambda>t. Some (fst t)) ts
   \<and> (\<forall>k. k \<notin> fst ` set ts \<longrightarrow> liveSyncHashes (settings (fst (foldl (publish_target E) c ts))) k
                              = liveSyncHashes (settings (fst c)) k)"
proof (induction ts arbitrary: c)
  case Nil
  show ?case by (simp add: same_control_refl)
next
  case (Cons t ts)
  from Cons.IH [of "publish_target E c t"] publish_target_frame [of c E t]
  show ?case by (auto intro: same_control_trans)
qed

lemma publish_target_hash:
  "liveSyncHashes (settings (fst (publish_target E (p, u) (fp, h)))) fp =
     (case fst (doPublish E (Some fp) (Some True) p) of
        Inr result \<Rightarrow> if failedFiles result = [] then Some h else liveSyncHashes (settings p) fp
      | Inl err \<Rightarrow> liveSyncHashes (settings p) fp)"
proof -
  obtain r p1 where d: "doPublish E (Some fp) (Some True) p = (r, p1)"
    by (cases "doPublish E (Some fp) (Some True) p")
  have "liveSyncHashes (settings p1) = liveSyncHashes (settings p)"
    using doPublish_hashes [of E "Some fp" "Some True" p] d by simp
  then show ?thesis
    by (cases r) (auto simp: publish_target_def d set_hash_def showNotice_def)
qed

subsection \<open>Draining the queue\<close>

lemma updateStatusBar_frame:
  "isSyncing (updateStatusBar st d p) = isSyncing p"
  "liveSyncQueue (updateStatusBar st d p) = liveSyncQueue p"
  "liveSyncTimeout (updateStatusBar st d p) = liveSyncTimeout p"
  "settings (updateStatusBar st d p) = settings p"
  "events (updateStatusBar st d p) = events p"
  "hasConfluenceClient (updateStatusBar st d p) = hasConfluenceClient p"
  "statusBarEl (updateStatusBar st d p)
     = (case statusBarEl p of None \<Rightarrow> None | Some old \<Rightarrow> Some (status_label st d))"
  by (simp_all add: updateStatusBar_def split: option.splits)

lemma set_add_distinct: "distinct q \<Longrightarrow> distinct (set_add x q)"
  by (simp add: set_add_def)

lemma collect_targets_paths:
  "map fst (collect_targets E hs q) =
     filter (\<lambda>fp. case computeFileHash E fp of
                    None \<Rightarrow> False
                  | Some h \<Rightarrow> h \<noteq> [] \<and> hs fp \<noteq> Some h) q"
  by (induction q) (auto split: option.splits)

lemma collect_targets_hash:
  "t \<in> set (collect_targets E hs q) \<Longrightarrow> computeFileHash E (fst t) = Some (snd t)"
  by (induction q) (auto split: option.splits if_splits)

lemma collect_targets_distinct:
  "distinct q \<Longrightarrow> distinct (map fst (collect_targets E hs q))"
  by (simp add: collect_targets_paths)

lemma maybeRunOrphanCleanup_hashes:
  "liveSyncHashes (settings (maybeRunOrphanCleanup E force p)) = liveSyncHashes (settings p)"
proof (rule same_config_fields(1))
  show "same_config p (maybeRunOrphanCleanup E force p)"
    using maybeRunOrphanCleanup_frame [of p E force] by blast
qed

text \<open>A whole cycle.\<close>

lemma flush_cycle_frame:
  "isSyncing (flush_cycle E ts p) = False
   \<and> liveSyncQueue (flush_cycle E ts p) = liveSyncQueue p
   \<and> liveSyncTimeout (flush_cycle E ts p) = liveSyncTimeout p
   \<and> statusBarEl (flush_cycle E ts p)
       = (case statusBarEl p of
            None \<Rightarrow> None
          | Some old \<Rightarrow> Some (if liveSyncQueue p = [] then status_label Idle None
                              else status_label Syncing (Some (length ts))))
   \<and> publish_calls (events (flush_cycle E ts p)) = publish_calls (events p) @ map (\<lambda>t. Some (fst t)) ts"
proof -
  let ?p2 = "flush_cycle_enter ts p"
  obtain p3 u where f: "foldl (publish_target E) (?p2, False) ts = (p3, u)"
    by (cases "foldl (publish_target E) (?p2, False) ts")
  have p3: "same_control ?p2 p3
            \<and> publish_calls (events p3) = publish_calls (events ?p2) @ map (\<lambda>t. Some (fst t)) ts"
    using publish_fold_frame [of "(?p2, False)" E ts] f by simp
  define p6 where "p6 = (let p4 = (if u then saveData p3 else p3); p5 = p4\<lparr>isSyncing := False\<rparr>
                         in if length (liveSyncQueue p5) = 0 then updateStatusBar Idle None p5 else p5)"
  have eq: "flush_cycle E ts p = maybeRunOrphanCleanup E False p6"
    by (simp add: flush_cycle_def f p6_def Let_def)
  have p6: "isSyncing p6 = False \<and> liveSyncQueue p6 = liveSyncQueue p
            \<and> liveSyncTimeout p6 = liveSyncTimeout p
            \<and> statusBarEl p6 = (case statusBarEl p of
                 None \<Rightarrow> None
               | Some old \<Rightarrow> Some (if liveSyncQueue p = [] then status_label Idle None
                                   else status_label Syncing (Some (length ts))))
            \<and> publish_calls (events p6) = publish_calls (events p) @ map (\<lambda>t. Some (fst t)) ts"
    using p3
    by (auto simp: p6_def Let_def saveData_def same_control_def flush_cycle_enter_def
        updateStatusBar_frame publish_calls_def split: option.splits)
  show ?thesis
    unfolding eq using p6 maybeRunOrphanCleanup_frame [of p6 E False]
    by (simp add: same_control_def)
qed

lemma flush_cycle_hashes_other:
  assumes "k \<notin> fst ` set ts"
  shows "liveSyncHashes (settings (flush_cycle E ts p)) k = liveSyncHashes (settings p) k"
proof -
  let ?p2 = "flush_cycle_enter ts p"
  obtain p3 u where f: "foldl (publish_target E) (?p2, False) ts = (p3, u)"
    by (cases "foldl (publish_target E) (?p2, False) ts")
  have p3: "liveSyncHashes (settings p3) k = liveSyncHashes (settings p) k"
    using publish_fold_frame [of "(?p2, False)" E ts] f assms
    by (simp add: flush_cycle_enter_def updateStatusBar_frame)
  define p6 where "p6 = (let p4 = (if u then saveData p3 else p3); p5 = p4\<lparr>isSyncing := False\<rparr>
                         in if length (liveSyncQueue p5) = 0 then updateStatusBar Idle None p5 else p5)"
  have eq: "flush_cycle E ts p = maybeRunOrphanCleanup E False p6"
    by (simp add: flush_cycle_def f p6_def Let_def)
  have "settings p6 = settings p3"
    by (simp add: p6_def Let_def saveData_def updateStatusBar_frame)
  then show ?thesis
    unfolding eq maybeRunOrphanCleanup_hashes using p3 by simp
qed

lemma flush_cycle_hash_target:
  assumes split: "ts = pre @ (fp, h) # post"
    and keys: "distinct (map fst ts)"
    and q: "foldl (publish_target E) (flush_cycle_enter ts p, False) pre = (q, u)"
  shows "liveSyncHashes (settings (flush_cycle E ts p)) fp =
     (case fst (doPublish E (Some fp) (Some True) q) of
        Inr result \<Rightarrow> if failedFiles result = [] then Some h else liveSyncHashes (settings p) fp
      | Inl err \<Rightarrow> liveSyncHashes (settings p) fp)"
proof -
  let ?p2 = "flush_cycle_enter ts p"
  have not_pre: "fp \<notin> fst ` set pre" and not_post: "fp \<notin> fst ` set post"
    using keys unfolding split by auto
  have before: "liveSyncHashes (settings q) fp = liveSyncHashes (settings p) fp"
    using publish_fold_frame [of "(?p2, False)" E pre] q not_pre
    by (simp add: flush_cycle_enter_def updateStatusBar_frame)
  obtain p3 u3 where f: "foldl (publish_target E) (?p2, False) ts = (p3, u3)"
    by (cases "foldl (publish_target E) (?p2, False) ts")
  have "foldl (publish_target E) (?p2, False) (pre @ (fp, h) # post)
        = foldl (publish_target E) (publish_target E (q, u) (fp, h)) post"
    using q by simp
  then have "foldl (publish_target E) (?p2, False) ts
        = foldl (publish_target E) (publish_target E (q, u) (fp, h)) post"
    using split by simp
  then have p3_eq: "p3 = fst (foldl (publish_target E) (publish_target E (q, u) (fp, h)) post)"
    using f by (metis fst_conv)
  have "liveSyncHashes (settings (fst (foldl (publish_target E) (publish_target E (q, u) (fp, h)) post))) fp
        = liveSyncHashes (settings (fst (publish_target E (q, u) (fp, h)))) fp"
    using publish_fold_frame [of "publish_target E (q, u) (fp, h)" E post] not_post by blast
  then have "liveSyncHashes (settings p3) fp
        = liveSyncHashes (settings (fst (publish_target E (q, u) (fp, h)))) fp"
    unfolding p3_eq .
  also have "\<dots> = (case fst (doPublish E (Some fp) (Some True) q) of
        Inr result \<Rightarrow> if failedFiles result = [] then Some h else liveSyncHashes (settings p) fp
      | Inl err \<Rightarrow> liveSyncHashes (settings p) fp)"
    unfolding publish_target_hash before ..
  finally have p3: "liveSyncHashes (settings p3) fp = (case fst (doPublish E (Some fp) (Some True) q) of
        Inr result \<Rightarrow> if failedFiles result = [] then Some h else liveSyncHashes (settings p) fp
      | Inl err \<Rightarrow> liveSyncHashes (settings p) fp)" .
  define p6 where "p6 = (let p4 = (if u3 then saveData p3 else p3); p5 = p4\<lparr>isSyncing := False\<rparr>
                         in if length (liveSyncQueue p5) = 0 then updateStatusBar Idle None p5 else p5)"
  have eq: "flush_cycle E ts p = maybeRunOrphanCleanup E False p6"
    by (simp add: flush_cycle_def f p6_def Let_def)
  have "settings p6 = settings p3"
    by (simp add: p6_def Let_def saveData_def updateStatusBar_frame)
  then show ?thesis
    unfolding eq maybeRunOrphanCleanup_hashes using p3 by simp
qed

lemma flush_drain_unfold:
  "flush_drain E p = (collect_targets E (liveSyncHashes (settings p)) (liveSyncQueue p),
                      p\<lparr>liveSyncQueue := []\<rparr>)"
  by (simp add: flush_drain_def Let_def)

lemma flush_publish_calls:
  assumes "liveSyncEnabled (settings p)" and "liveSyncQueue p \<noteq> []" and "\<not> isSyncing p"
  shows "publish_calls (events (flushLiveSyncQueue E p))
         = publish_calls (events p) @ map (\<lambda>t. Some (fst t)) (fst (flush_drain E p))"
proof (cases "fst (flush_drain E p) = []")
  case True
  then show ?thesis
    using assms maybeRunOrphanCleanup_frame [of "p\<lparr>liveSyncQueue := []\<rparr>" E False]
    by (simp add: flushLiveSyncQueue_def flush_drain_unfold updateStatusBar_frame)
next
  case False
  then show ?thesis
    using assms flush_cycle_frame [of E "fst (flush_drain E p)" "p\<lparr>liveSyncQueue := []\<rparr>"]
    by (simp add: flushLiveSyncQueue_def flush_drain_unfold)
qed

text \<open>
  C3 (amended). When the flush drains the queue, its targets are the snapshotted queued
  paths, in order, whose fingerprint can be computed and differs from the hash stored
  in \<open>liveSyncHashes\<close>, each with that fingerprint; these are exactly the paths the
  cycle hands to the publisher. A path whose fingerprint cannot be computed (no such
  file, a folder, or a read that fails) is dropped from the cycle: it is not a publish
  target.
\<close>

theorem drain_filter:
  "map fst (fst (flush_drain E p))
     = filter (\<lambda>fp. case computeFileHash E fp of
                      None \<Rightarrow> False
                    | Some h \<Rightarrow> h \<noteq> [] \<and> liveSyncHashes (settings p) fp \<noteq> Some h)
         (liveSyncQueue p)
   \<and> (\<forall>t\<in>set (fst (flush_drain E p)). computeFileHash E (fst t) = Some (snd t))
   \<and> (\<forall>fp. computeFileHash E fp = None \<longrightarrow> fp \<notin> fst ` set (fst (flush_drain E p)))
   \<and> (liveSyncEnabled (settings p) \<and> liveSyncQueue p \<noteq> [] \<and> \<not> isSyncing p \<longrightarrow>
        publish_calls (events (flushLiveSyncQueue E p))
          = publish_calls (events p) @ map (\<lambda>t. Some (fst t)) (fst (flush_drain E p)))"
proof -
  have paths: "map fst (fst (flush_drain E p))
     = filter (\<lambda>fp. case computeFileHash E fp of
                      None \<Rightarrow> False
                    | Some h \<Rightarrow> h \<noteq> [] \<and> liveSyncHashes (settings p) fp \<noteq> Some h)
         (liveSyncQueue p)"
    by (simp add: flush_drain_unfold collect_targets_paths)
  have hashes: "\<forall>t\<in>set (fst (flush_drain E p)). computeFileHash E (fst t) = Some (snd t)"
    by (simp add: flush_drain_unfold collect_targets_hash)
  have failed: "\<forall>fp. computeFileHash E fp = None \<longrightarrow> fp \<notin> fst ` set (fst (flush_drain E p))"
  proof (intro allI impI)
    fix fp assume none: "computeFileHash E fp = None"
    have "fp \<notin> set (map fst (fst (flush_drain E p)))"
      unfolding paths using none by simp
    then show "fp \<notin> fst ` set (fst (flush_drain E p))" by simp
  qed
  from paths hashes failed flush_publish_calls [of p E] show ?thesis by blast
qed

theorem drain_filter_witness:
  "liveSyncQueue queued_plugin = [''Docs/a.md'']
   \<and> computeFileHash demo_env ''Docs/a.md'' = Some ''md5:text''
   \<and> liveSyncHashes (settings queued_plugin) ''Docs/a.md'' = None
   \<and> fst (flush_drain demo_env queued_plugin) = [(''Docs/a.md'', ''md5:text'')]
   \<and> publish_calls (events (flushLiveSyncQueue demo_env queued_plugin)) = [Some ''Docs/a.md'']"
proof -
  note t = drain_filter [of demo_env queued_plugin]
  have drained: "fst (flush_drain demo_env queued_plugin) = [(''Docs/a.md'', ''md5:text'')]"
    by (simp add: flush_drain_def computeFileHash_def demo_env_def demo_plugin_def
        demo_settings_def queued_plugin_def)
  have ready: "liveSyncEnabled (settings queued_plugin) \<and> liveSyncQueue queued_plugin \<noteq> []
               \<and> \<not> isSyncing queued_plugin"
    by (simp add: demo_env_def demo_plugin_def demo_settings_def queued_plugin_def)
  have calls: "publish_calls (events (flushLiveSyncQueue demo_env queued_plugin)) = [Some ''Docs/a.md'']"
    using t [THEN conjunct2, THEN conjunct2, THEN conjunct2] ready
    by (simp add: drained) (simp add: demo_env_def demo_plugin_def demo_settings_def
        queued_plugin_def publish_calls_def)
  have rest: "liveSyncQueue queued_plugin = [''Docs/a.md'']
   \<and> computeFileHash demo_env ''Docs/a.md'' = Some ''md5:text''
   \<and> liveSyncHashes (settings queued_plugin) ''Docs/a.md'' = None"
    by (simp add: computeFileHash_def demo_env_def demo_plugin_def demo_settings_def
        queued_plugin_def)
  from rest drained calls show ?thesis by blast
qed

text \<open>
  The claim as stated fails where the read fails: the queued path \<^verbatim>\<open>Docs/a.md\<close> of an
  unreadable vault is not a target and is not published.
\<close>

theorem drain_filter_counterexample:
  "liveSyncQueue queued_plugin = [''Docs/a.md'']
   \<and> vaultRead unreadable_env ''Docs/a.md'' = Inl io_error
   \<and> computeFileHash unreadable_env ''Docs/a.md'' = None
   \<and> fst (flush_drain unreadable_env queued_plugin) = []
   \<and> publish_calls (events (flushLiveSyncQueue unreadable_env queued_plugin)) = []"
proof -
  have none: "computeFileHash unreadable_env ''Docs/a.md'' = None"
    by (simp add: computeFileHash_def demo_env_def demo_plugin_def demo_settings_def
        queued_plugin_def unreadable_env_def io_error_def)
  have drained: "fst (flush_drain unreadable_env queued_plugin) = []"
    by (simp add: flush_drain_def computeFileHash_def demo_env_def demo_plugin_def
        demo_settings_def queued_plugin_def unreadable_env_def io_error_def)
  have ready: "liveSyncEnabled (settings queued_plugin)" "liveSyncQueue queued_plugin \<noteq> []"
      "\<not> isSyncing queued_plugin"
    by (simp_all add: demo_env_def demo_plugin_def demo_settings_def queued_plugin_def
        unreadable_env_def io_error_def)
  have "publish_calls (events (flushLiveSyncQueue unreadable_env queued_plugin))
        = publish_calls (events queued_plugin) @ map (\<lambda>t. Some (fst t)) (fst (flush_drain unreadable_env queued_plugin))"
    using ready by (rule flush_publish_calls)
  then have calls: "publish_calls (events (flushLiveSyncQueue unreadable_env queued_plugin)) = []"
    by (simp add: drained) (simp add: demo_env_def demo_plugin_def demo_settings_def
        queued_plugin_def unreadable_env_def io_error_def publish_calls_def)
  have rest: "liveSyncQueue queued_plugin = [''Docs/a.md'']
              \<and> vaultRead unreadable_env ''Docs/a.md'' = Inl io_error"
    by (simp add: demo_env_def demo_plugin_def demo_settings_def queued_plugin_def
        unreadable_env_def io_error_def)
  from rest none drained calls show ?thesis by blast
qed

subsection \<open>Hashes and publishing\<close>

lemma ribbon_onclick_hashes:
  "liveSyncHashes (settings (ribbon_onclick E p)) = liveSyncHashes (settings p)"
proof (cases "isSyncing p")
  case True
  then show ?thesis by (simp add: ribbon_onclick_def ribbon_begin_def showNotice_def)
next
  case False
  let ?q = "p\<lparr>isSyncing := True\<rparr>"
  obtain r p1 where d: "doPublish E None None ?q = (r, p1)"
    by (cases "doPublish E None None ?q")
  have "liveSyncHashes (settings p1) = liveSyncHashes (settings ?q)"
    using doPublish_hashes [of E None None ?q] d by simp
  then show ?thesis
    using False d
    by (cases r) (simp_all add: ribbon_onclick_def ribbon_begin_def ribbon_resume_def doPublish_def)
qed

text \<open>
  C5 (amended). In a live-sync cycle, for every target: when \<open>doPublish\<close> for the
  target returns without a failed file, the entry of its path in \<open>liveSyncHashes\<close>
  becomes the fingerprint taken when the queue was drained; when \<open>doPublish\<close> reports
  a failed file or throws, the entry stays as it was before the cycle; the entries of
  all other paths stay as they were. \<open>doPublish\<close> itself never writes
  \<open>liveSyncHashes\<close>, so a publish started from the ribbon or a command leaves every
  entry unchanged, on success as on failure.
\<close>

theorem publish_hash_effects:
  "liveSyncHashes (settings (snd (doPublish E f skip p))) = liveSyncHashes (settings p)
   \<and> liveSyncHashes (settings (ribbon_onclick E p)) = liveSyncHashes (settings p)
   \<and> (\<forall>pre fp h post q u.
         targets = pre @ (fp, h) # post \<and> distinct (map fst targets)
         \<and> foldl (publish_target E) (flush_cycle_enter targets p, False) pre = (q, u)
         \<longrightarrow> liveSyncHashes (settings (flush_cycle E targets p)) fp
               = (case fst (doPublish E (Some fp) (Some True) q) of
                    Inr result \<Rightarrow> if failedFiles result = [] then Some h
                                  else liveSyncHashes (settings p) fp
                  | Inl err \<Rightarrow> liveSyncHashes (settings p) fp))
   \<and> (\<forall>k. k \<notin> fst ` set targets \<longrightarrow>
         liveSyncHashes (settings (flush_cycle E targets p)) k = liveSyncHashes (settings p) k)
   \<and> (distinct (liveSyncQueue p) \<longrightarrow> distinct (map fst (fst (flush_drain E p))))"
proof -
  have cycle: "\<forall>pre fp h post q u.
         targets = pre @ (fp, h) # post \<and> distinct (map fst targets)
         \<and> foldl (publish_target E) (flush_cycle_enter targets p, False) pre = (q, u)
         \<longrightarrow> liveSyncHashes (settings (flush_cycle E targets p)) fp
               = (case fst (doPublish E (Some fp) (Some True) q) of
                    Inr result \<Rightarrow> if failedFiles result = [] then Some h
                                  else liveSyncHashes (settings p) fp
                  | Inl err \<Rightarrow> liveSyncHashes (settings p) fp)"
    by (intro allI impI, elim conjE) (rule flush_cycle_hash_target)
  have others: "\<forall>k. k \<notin> fst ` set targets \<longrightarrow>
         liveSyncHashes (settings (flush_cycle E targets p)) k = liveSyncHashes (settings p) k"
    by (intro allI impI) (rule flush_cycle_hashes_other)
  have queue: "distinct (liveSyncQueue p) \<longrightarrow> distinct (map fst (fst (flush_drain E p)))"
    by (simp add: flush_drain_unfold collect_targets_distinct)
  from doPublish_hashes [of E f skip p] ribbon_onclick_hashes [of E p] cycle others queue
  show ?thesis by blast
qed

theorem publish_hash_effects_witness:
  "liveSyncHashes (settings (flush_cycle uploading_env [(''Docs/a.md'', ''md5:text'')] demo_plugin))
      ''Docs/a.md'' = Some ''md5:text''
   \<and> liveSyncHashes (settings (flush_cycle rejecting_env [(''Docs/a.md'', ''md5:text'')] demo_plugin))
      ''Docs/a.md'' = None
   \<and> liveSyncHashes (settings (flush_cycle uploading_env [(''Docs/a.md'', ''md5:text'')] demo_plugin))
      ''Docs/b.md'' = None"
proof -
  let ?ts = "[(''Docs/a.md'', ''md5:text'')]"
  let ?q = "flush_cycle_enter ?ts demo_plugin"
  have split: "?ts = [] @ (''Docs/a.md'', ''md5:text'') # []" by simp
  have keys: "distinct (map fst ?ts)" by simp
  have start: "foldl (publish_target E) (?q, False) [] = (?q, False)" for E by simp
  have up: "fst (doPublish uploading_env (Some ''Docs/a.md'') (Some True) ?q)
            = Inr \<lparr>errorMessage = None, failedFiles = [], filesUploadResult = [''uploaded'']\<rparr>"
    by (simp add: doPublish_def doPublish_resume_def publisher_call_def upload_step_def
        empty_results_def Let_def demo_env_def demo_plugin_def demo_settings_def
        uploading_env_def rejecting_env_def)
  have rej: "fst (doPublish rejecting_env (Some ''Docs/a.md'') (Some True) ?q)
            = Inr \<lparr>errorMessage = None,
                   failedFiles = [\<lparr>fileName = ''Docs/a.md'', failReason = ''upload refused''\<rparr>],
                   filesUploadResult = []\<rparr>"
    by (simp add: doPublish_def doPublish_resume_def publisher_call_def upload_step_def
        empty_results_def Let_def demo_env_def demo_plugin_def demo_settings_def
        uploading_env_def rejecting_env_def)
  have none: "liveSyncHashes (settings demo_plugin) ''Docs/a.md'' = None"
    by (simp add: demo_env_def demo_plugin_def demo_settings_def uploading_env_def
        rejecting_env_def)
  have a: "liveSyncHashes (settings (flush_cycle uploading_env ?ts demo_plugin)) ''Docs/a.md''
           = Some ''md5:text''"
    using publish_hash_effects [of uploading_env None None demo_plugin ?ts,
        THEN conjunct2, THEN conjunct2, THEN conjunct1, rule_format,
        of "[]" "''Docs/a.md''" "''md5:text''" "[]" ?q False,
        OF conjI [OF split conjI [OF keys start]]]
    by (simp add: up)
  have b: "liveSyncHashes (settings (flush_cycle rejecting_env ?ts demo_plugin)) ''Docs/a.md'' = None"
    using publish_hash_effects [of rejecting_env None None demo_plugin ?ts,
        THEN conjunct2, THEN conjunct2, THEN conjunct1, rule_format,
        of "[]" "''Docs/a.md''" "''md5:text''" "[]" ?q False,
        OF conjI [OF split conjI [OF keys start]]]
    by (simp add: rej none)
  have c: "liveSyncHashes (settings (flush_cycle uploading_env ?ts demo_plugin)) ''Docs/b.md'' = None"
    using publish_hash_effects [of uploading_env None None demo_plugin ?ts,
        THEN conjunct2, THEN conjunct2, THEN conjunct2, THEN conjunct1, rule_format,
        of "''Docs/b.md''"]
    by (simp add: demo_env_def demo_plugin_def demo_settings_def uploading_env_def
        rejecting_env_def)
  from a b c show ?thesis by blast
qed

text \<open>
  The claim as stated fails for the ribbon: the publisher uploads \<^verbatim>\<open>Docs/a.md\<close> with no
  failed file, and the entry of that path in \<open>liveSyncHashes\<close> is still missing.
\<close>

theorem publish_hash_effects_counterexample:
  "fst (doPublish uploading_env None None demo_plugin)
     = Inr \<lparr>errorMessage = None, failedFiles = [], filesUploadResult = [''uploaded'']\<rparr>
   \<and> computeFileHash uploading_env ''Docs/a.md'' = Some ''md5:text''
   \<and> liveSyncHashes (settings (snd (doPublish uploading_env None None demo_plugin))) ''Docs/a.md'' = None
   \<and> liveSyncHashes (settings (ribbon_onclick uploading_env demo_plugin)) ''Docs/a.md'' = None"
proof -
  have r: "fst (doPublish uploading_env None None demo_plugin)
     = Inr \<lparr>errorMessage = None, failedFiles = [], filesUploadResult = [''uploaded'']\<rparr>"
    by (simp add: doPublish_def doPublish_resume_def publisher_call_def upload_step_def
        empty_results_def Let_def demo_env_def demo_plugin_def demo_settings_def uploading_env_def)
  have h: "computeFileHash uploading_env ''Docs/a.md'' = Some ''md5:text''"
    by (simp add: computeFileHash_def demo_env_def demo_plugin_def demo_settings_def
        uploading_env_def)
  have d: "liveSyncHashes (settings (snd (doPublish uploading_env None None demo_plugin))) ''Docs/a.md'' = None"
    unfolding doPublish_hashes by (simp add: demo_env_def demo_plugin_def demo_settings_def
        uploading_env_def)
  have c: "liveSyncHashes (settings (ribbon_onclick uploading_env demo_plugin)) ''Docs/a.md'' = None"
    unfolding ribbon_onclick_hashes by (simp add: demo_env_def demo_plugin_def demo_settings_def
        uploading_env_def)
  from r h d c show ?thesis by blast
qed

subsection \<open>Single flight\<close>

lemma clearLiveSyncQueue_frame:
  "isSyncing (clearLiveSyncQueue p) = isSyncing p"
  "liveSyncQueue (clearLiveSyncQueue p) = []"
  "publish_calls (events (clearLiveSyncQueue p)) = publish_calls (events p)"
  "\<not> isSyncing p \<Longrightarrow> statusBarEl (clearLiveSyncQueue p)
     = (case statusBarEl p of None \<Rightarrow> None | Some old \<Rightarrow> Some (status_label Idle None))"
  by (auto simp: clearLiveSyncQueue_def Let_def updateStatusBar_frame publish_calls_def
      split: option.splits)

lemma scheduleLiveSync_frame:
  "statusBarEl (scheduleLiveSync d p) = statusBarEl p"
  "liveSyncQueue (scheduleLiveSync d p) = liveSyncQueue p"
  "isSyncing (scheduleLiveSync d p) = isSyncing p"
  by (simp_all add: scheduleLiveSync_def Let_def split: option.splits)

lemma scheduleLiveSync_unfold:
  "scheduleLiveSync None p =
     p\<lparr>liveSyncTimeout := Some (max 0 (case liveSyncDebounceSeconds (settings p) of
                                          None \<Rightarrow> 5 | Some d \<Rightarrow> d) * 1000),
       events := events p @ (case liveSyncTimeout p of None \<Rightarrow> [] | Some t \<Rightarrow> [ClearTimeout])
                 @ [SetTimeout (max 0 (case liveSyncDebounceSeconds (settings p) of
                                         None \<Rightarrow> 5 | Some d \<Rightarrow> d) * 1000)]\<rparr>"
  by (simp add: scheduleLiveSync_def Let_def split: option.splits)

text \<open>Where a cycle is suspended: the first statement of \<open>doPublish\<close> is the call.\<close>

lemma publish_target_suspended:
  "publish_target E (p, u) t =
     (case doPublish_resume E (Some (fst t)) (Some True) (publisher_call (Some (fst t)) p) of
        (Inr result, p1) \<Rightarrow>
          if length (failedFiles result) = 0 then (set_hash (fst t) (snd t) p1, True) else (p1, u)
      | (Inl error, p1) \<Rightarrow> (showNotice (''Live sync failed: '' @ live_sync_message error) p1, u))"
  by (simp add: publish_target_def doPublish_def)

lemma ribbon_onclick_suspended:
  "\<not> isSyncing p \<Longrightarrow> ribbon_onclick E p = ribbon_resume E (publisher_call None (p\<lparr>isSyncing := True\<rparr>))"
  by (simp add: ribbon_onclick_def ribbon_begin_def)

text \<open>
  C1 (amended). Whenever \<open>flushLiveSyncQueue\<close> runs while \<open>isSyncing\<close> is true it
  makes no publisher call and leaves \<open>isSyncing\<close> true; when moreover live sync is
  enabled and the queue is not empty, it does nothing but re-arm the debounce timer
  (cancelling an armed one) with the configured delay, the queue unchanged. With live
  sync disabled it clears the queue and the timer instead, and with an empty queue it
  only runs the cleanup check and does not arm the timer.
\<close>

theorem flush_while_syncing:
  assumes busy: "isSyncing p"
  shows "publish_calls (events (flushLiveSyncQueue E p)) = publish_calls (events p)
     \<and> isSyncing (flushLiveSyncQueue E p)
     \<and> (liveSyncEnabled (settings p) \<and> liveSyncQueue p \<noteq> [] \<longrightarrow>
          flushLiveSyncQueue E p = scheduleLiveSync None p
          \<and> liveSyncQueue (flushLiveSyncQueue E p) = liveSyncQueue p
          \<and> liveSyncTimeout (flushLiveSyncQueue E p)
              = Some (max 0 (case liveSyncDebounceSeconds (settings p) of None \<Rightarrow> 5 | Some d \<Rightarrow> d) * 1000)
          \<and> events (flushLiveSyncQueue E p)
              = events p @ (case liveSyncTimeout p of None \<Rightarrow> [] | Some t \<Rightarrow> [ClearTimeout])
                @ [SetTimeout (max 0 (case liveSyncDebounceSeconds (settings p) of
                                        None \<Rightarrow> 5 | Some d \<Rightarrow> d) * 1000)])
     \<and> (\<not> liveSyncEnabled (settings p) \<longrightarrow>
          flushLiveSyncQueue E p = clearLiveSyncQueue p
          \<and> liveSyncQueue (flushLiveSyncQueue E p) = []
          \<and> liveSyncTimeout (flushLiveSyncQueue E p) = None)
     \<and> (liveSyncEnabled (settings p) \<and> liveSyncQueue p = [] \<longrightarrow>
          flushLiveSyncQueue E p = maybeRunOrphanCleanup E False p
          \<and> liveSyncQueue (flushLiveSyncQueue E p) = []
          \<and> liveSyncTimeout (flushLiveSyncQueue E p) = liveSyncTimeout p)"
proof -
  have cleanup: "same_control p (maybeRunOrphanCleanup E False p)"
    and cleanup_calls: "publish_calls (events (maybeRunOrphanCleanup E False p)) = publish_calls (events p)"
    using maybeRunOrphanCleanup_frame [of p E False] by blast+
  have resched: "publish_calls (events (scheduleLiveSync None p)) = publish_calls (events p)"
    by (simp add: scheduleLiveSync_unfold publish_calls_def split: option.splits)
  consider (off) "\<not> liveSyncEnabled (settings p)"
    | (empty) "liveSyncEnabled (settings p)" "liveSyncQueue p = []"
    | (queued) "liveSyncEnabled (settings p)" "liveSyncQueue p \<noteq> []"
    by blast
  then have both: "publish_calls (events (flushLiveSyncQueue E p)) = publish_calls (events p)
                   \<and> isSyncing (flushLiveSyncQueue E p)"
  proof cases
    case off
    then show ?thesis
      using busy by (simp add: flushLiveSyncQueue_def clearLiveSyncQueue_frame)
  next
    case empty
    then show ?thesis
      using busy cleanup cleanup_calls by (simp add: flushLiveSyncQueue_def same_control_def)
  next
    case queued
    then show ?thesis
      using busy resched by (simp add: flushLiveSyncQueue_def scheduleLiveSync_frame)
  qed
  then have calls: "publish_calls (events (flushLiveSyncQueue E p)) = publish_calls (events p)"
    and flag: "isSyncing (flushLiveSyncQueue E p)"
    by blast+
  have queued: "liveSyncEnabled (settings p) \<and> liveSyncQueue p \<noteq> [] \<longrightarrow>
          flushLiveSyncQueue E p = scheduleLiveSync None p
          \<and> liveSyncQueue (flushLiveSyncQueue E p) = liveSyncQueue p
          \<and> liveSyncTimeout (flushLiveSyncQueue E p)
              = Some (max 0 (case liveSyncDebounceSeconds (settings p) of None \<Rightarrow> 5 | Some d \<Rightarrow> d) * 1000)
          \<and> events (flushLiveSyncQueue E p)
              = events p @ (case liveSyncTimeout p of None \<Rightarrow> [] | Some t \<Rightarrow> [ClearTimeout])
                @ [SetTimeout (max 0 (case liveSyncDebounceSeconds (settings p) of
                                        None \<Rightarrow> 5 | Some d \<Rightarrow> d) * 1000)]"
  proof (intro impI, elim conjE)
    assume on: "liveSyncEnabled (settings p)" and some: "liveSyncQueue p \<noteq> []"
    have eq: "flushLiveSyncQueue E p = scheduleLiveSync None p"
      using busy on some by (simp add: flushLiveSyncQueue_def)
    show "flushLiveSyncQueue E p = scheduleLiveSync None p
          \<and> liveSyncQueue (flushLiveSyncQueue E p) = liveSyncQueue p
          \<and> liveSyncTimeout (flushLiveSyncQueue E p)
              = Some (max 0 (case liveSyncDebounceSeconds (settings p) of None \<Rightarrow> 5 | Some d \<Rightarrow> d) * 1000)
          \<and> events (flushLiveSyncQueue E p)
              = events p @ (case liveSyncTimeout p of None \<Rightarrow> [] | Some t \<Rightarrow> [ClearTimeout])
                @ [SetTimeout (max 0 (case liveSyncDebounceSeconds (settings p) of
                                        None \<Rightarrow> 5 | Some d \<Rightarrow> d) * 1000)]"
      unfolding eq by (simp add: scheduleLiveSync_unfold)
  qed
  have off: "\<not> liveSyncEnabled (settings p) \<longrightarrow>
          flushLiveSyncQueue E p = clearLiveSyncQueue p
          \<and> liveSyncQueue (flushLiveSyncQueue E p) = []
          \<and> liveSyncTimeout (flushLiveSyncQueue E p) = None"
    by (simp add: flushLiveSyncQueue_def clearLiveSyncQueue_def Let_def updateStatusBar_frame
        split: option.splits)
  have empty: "liveSyncEnabled (settings p) \<and> liveSyncQueue p = [] \<longrightarrow>
          flushLiveSyncQueue E p = maybeRunOrphanCleanup E False p
          \<and> liveSyncQueue (flushLiveSyncQueue E p) = []
          \<and> liveSyncTimeout (flushLiveSyncQueue E p) = liveSyncTimeout p"
    using busy cleanup by (simp add: flushLiveSyncQueue_def same_control_def)
  show ?thesis
    by (rule conjI [OF calls conjI [OF flag conjI [OF queued conjI [OF off empty]]]])
qed

theorem flush_while_syncing_witness:
  "isSyncing syncing_plugin
   \<and> liveSyncQueue (onVaultFileModified demo_env (TFile ''Docs/b.md'' ''md'') syncing_plugin) = [''Docs/b.md'']
   \<and> publish_calls (events (debounce_fire demo_env
         (onVaultFileModified demo_env (TFile ''Docs/b.md'' ''md'') syncing_plugin))) = [Some ''Docs/a.md'']
   \<and> liveSyncQueue (debounce_fire demo_env
         (onVaultFileModified demo_env (TFile ''Docs/b.md'' ''md'') syncing_plugin)) = [''Docs/b.md'']
   \<and> liveSyncTimeout (debounce_fire demo_env
         (onVaultFileModified demo_env (TFile ''Docs/b.md'' ''md'') syncing_plugin)) = Some 5000
   \<and> events (debounce_fire demo_env
         (onVaultFileModified demo_env (TFile ''Docs/b.md'' ''md'') syncing_plugin))
       = [PublishStart (Some ''Docs/a.md''), SetTimeout 5000, SetTimeout 5000]"
proof -
  let ?m = "onVaultFileModified demo_env (TFile ''Docs/b.md'' ''md'') syncing_plugin"
  let ?p = "?m\<lparr>liveSyncTimeout := None\<rparr>"
  have m: "?m = syncing_plugin\<lparr>liveSyncQueue := [''Docs/b.md''],
                  statusBarEl := Some ''Confluence: Pending (1)'',
                  liveSyncTimeout := Some 5000,
                  events := [PublishStart (Some ''Docs/a.md''), SetTimeout 5000]\<rparr>"
    by (simp add: onVaultFileModified_def shouldUseOnSaveSync_def isFileEligibleForLiveSync_def
        getNormalizedBacklinkKey_def stripTrailingSlashes_def startsWith_def set_add_def
        scheduleLiveSync_def updateStatusBar_def status_label_def detail_suffix_def
        digit_char_def Let_def flush_drain_def flush_cycle_enter_def publisher_call_def
        ribbon_begin_def computeFileHash_def publish_calls_def publishes_in_flight_def
        syncing_plugin_def queued_plugin_def demo_plugin_def
        demo_settings_def demo_env_def)
  have s: "isSyncing syncing_plugin \<and> liveSyncEnabled (settings syncing_plugin)
           \<and> liveSyncDebounceSeconds (settings syncing_plugin) = Some 5"
    by (simp add: flush_drain_def flush_cycle_enter_def publisher_call_def ribbon_begin_def
        computeFileHash_def publish_calls_def publishes_in_flight_def updateStatusBar_def
        syncing_plugin_def queued_plugin_def
        demo_plugin_def demo_settings_def demo_env_def)
  have busy: "isSyncing ?p" using s by (simp add: m)
  have queued: "liveSyncEnabled (settings ?p) \<and> liveSyncQueue ?p \<noteq> []" using s by (simp add: m)
  note t = flush_while_syncing [OF busy, of demo_env]
  have calls: "publish_calls (events (debounce_fire demo_env ?m)) = [Some ''Docs/a.md'']"
    using t [THEN conjunct1] by (simp add: debounce_fire_def) (simp add: m publish_calls_def)
  from t [THEN conjunct2, THEN conjunct2] queued
  have "liveSyncQueue (flushLiveSyncQueue demo_env ?p) = liveSyncQueue ?p
        \<and> liveSyncTimeout (flushLiveSyncQueue demo_env ?p)
            = Some (max 0 (case liveSyncDebounceSeconds (settings ?p) of None \<Rightarrow> 5 | Some d \<Rightarrow> d) * 1000)
        \<and> events (flushLiveSyncQueue demo_env ?p)
            = events ?p @ (case liveSyncTimeout ?p of None \<Rightarrow> [] | Some t \<Rightarrow> [ClearTimeout])
              @ [SetTimeout (max 0 (case liveSyncDebounceSeconds (settings ?p) of
                                      None \<Rightarrow> 5 | Some d \<Rightarrow> d) * 1000)]"
    by blast
  then have rest: "liveSyncQueue (debounce_fire demo_env ?m) = [''Docs/b.md'']
        \<and> liveSyncTimeout (debounce_fire demo_env ?m) = Some 5000
        \<and> events (debounce_fire demo_env ?m)
            = [PublishStart (Some ''Docs/a.md''), SetTimeout 5000, SetTimeout 5000]"
    using s by (simp add: debounce_fire_def) (simp add: m)
  have q: "liveSyncQueue ?m = [''Docs/b.md'']" by (simp add: m)
  from s q calls rest show ?thesis by blast
qed

text \<open>
  The claim as stated fails twice. A debounce flush that finds \<open>isSyncing\<close> true and
  the queue empty (\<open>busy_plugin\<close>: an interval tick drained it) does not re-arm the
  timer. And the test of \<open>isSyncing\<close> does not exclude two publisher calls at once: in
  \<open>racing_plugin\<close> the call of the ribbon's \<open>doPublish\<close> and the call of the flush's
  are both in flight.
\<close>

theorem flush_while_syncing_counterexample:
  "liveSyncEnabled (settings busy_plugin) \<and> isSyncing busy_plugin \<and> liveSyncQueue busy_plugin = []
   \<and> liveSyncTimeout busy_plugin = Some 5000
   \<and> liveSyncTimeout (debounce_fire demo_env busy_plugin) = None
   \<and> fst (flush_drain demo_env queued_plugin) = [(''Docs/a.md'', ''md5:text'')]
   \<and> isSyncing (snd (flush_drain demo_env queued_plugin)) = False
   \<and> publish_calls (events racing_plugin) = [None, Some ''Docs/a.md'']
   \<and> publishes_in_flight (events racing_plugin) = 2"
proof -
  have b: "busy_plugin = both_plugin\<lparr>isSyncing := True, liveSyncTimeout := Some 5000,
             statusBarEl := Some ''Confluence: Syncing (1)'',
             events := [SetTimeout 5000, PublishStart (Some ''Docs/a.md'')]\<rparr>"
    by (simp add: onVaultFileModified_def shouldUseOnSaveSync_def isFileEligibleForLiveSync_def
        getNormalizedBacklinkKey_def stripTrailingSlashes_def startsWith_def set_add_def
        scheduleLiveSync_def updateStatusBar_def status_label_def detail_suffix_def
        digit_char_def Let_def flush_drain_def flush_cycle_enter_def publisher_call_def
        ribbon_begin_def computeFileHash_def publish_calls_def publishes_in_flight_def
        busy_plugin_def both_plugin_def demo_plugin_def
        demo_settings_def demo_env_def)
  have start: "liveSyncEnabled (settings busy_plugin) \<and> isSyncing busy_plugin
               \<and> liveSyncQueue busy_plugin = [] \<and> liveSyncTimeout busy_plugin = Some 5000"
    by (simp add: b both_plugin_def demo_plugin_def demo_settings_def)
  let ?b = "busy_plugin\<lparr>liveSyncTimeout := None\<rparr>"
  have "same_control ?b (maybeRunOrphanCleanup demo_env False ?b)"
    using maybeRunOrphanCleanup_frame [of ?b demo_env False] by blast
  then have idle: "liveSyncTimeout (debounce_fire demo_env busy_plugin) = None"
    using start by (simp add: debounce_fire_def flushLiveSyncQueue_def same_control_def)
  have drained: "fst (flush_drain demo_env queued_plugin) = [(''Docs/a.md'', ''md5:text'')]
                 \<and> isSyncing (snd (flush_drain demo_env queued_plugin)) = False"
    by (simp add: flush_drain_def computeFileHash_def demo_env_def demo_plugin_def
        demo_settings_def queued_plugin_def)
  have race: "publish_calls (events racing_plugin) = [None, Some ''Docs/a.md'']
              \<and> publishes_in_flight (events racing_plugin) = 2"
    by (simp add: racing_plugin_def flush_drain_def flush_cycle_enter_def publisher_call_def
        ribbon_begin_def computeFileHash_def publish_calls_def publishes_in_flight_def
        updateStatusBar_def
        demo_env_def demo_plugin_def demo_settings_def queued_plugin_def)
  from start idle drained race show ?thesis by blast
qed

subsection \<open>Status bar\<close>

lemma pending_label: "0 < n \<Longrightarrow> status_label Pending (Some n) = ''Confluence: Pending ('' @ show_nat n @ '')''"
  by (simp add: status_label_def detail_suffix_def)

lemma syncing_label: "0 < n \<Longrightarrow> status_label Syncing (Some n) = ''Confluence: Syncing ('' @ show_nat n @ '')''"
  by (simp add: status_label_def detail_suffix_def)

lemma set_add_nonempty: "0 < length (set_add x q)"
  by (cases q) (simp_all add: set_add_def)

lemma publish_target_cut:
  "publish_target E (p, hashesUpdated) target
     = publish_target_resume E (publisher_call (Some (fst target)) p, hashesUpdated) target"
  by (simp add: publish_target_def publish_target_resume_def doPublish_def)

lemma flush_cycle_cut:
  "flush_cycle E targets p =
     maybeRunOrphanCleanup E False
       (flush_cycle_finally
          (flush_cycle_save (foldl (publish_target E) (flush_cycle_enter targets p, False) targets)))"
  by (simp add: flush_cycle_def flush_cycle_finally_def flush_cycle_save_def Let_def
      split: prod.splits)

text \<open>
  C9 (amended). The status is rendered by the transitions of the queue machinery, not
  derived from its state. With no cycle in flight, an accepted modify event renders
  Pending(n) with n the size of the queue, which is not empty. When
  \<open>flushLiveSyncQueue\<close> starts a cycle it sets \<open>isSyncing\<close> and renders Syncing(n)
  with n the number of targets of the cycle. When the cycle reaches its \<^verbatim>\<open>finally\<close>
  block, \<open>isSyncing\<close> is cleared, the queue is left as it is, and the status is
  rendered Idle if the queue is empty at that moment; if it is not (a modify event
  arrived during the cycle) the status is left as it was. A publish started from the
  ribbon sets \<open>isSyncing\<close> and leaves the status as it was.
\<close>

theorem status_transitions:
  "(liveSyncEnabled (settings p) \<and> shouldUseOnSaveSync p
      \<and> isFileEligibleForLiveSync E p (TFile fp ''md'') \<and> statusBarEl p \<noteq> None \<and> \<not> isSyncing p
     \<longrightarrow> liveSyncQueue (onVaultFileModified E (TFile fp ''md'') p) = set_add fp (liveSyncQueue p)
         \<and> \<not> isSyncing (onVaultFileModified E (TFile fp ''md'') p)
         \<and> statusBarEl (onVaultFileModified E (TFile fp ''md'') p)
             = Some (''Confluence: Pending (''
                     @ show_nat (length (liveSyncQueue (onVaultFileModified E (TFile fp ''md'') p)))
                     @ '')''))
   \<and> (statusBarEl p \<noteq> None \<and> targets \<noteq> []
     \<longrightarrow> isSyncing (flush_cycle_enter targets p)
         \<and> statusBarEl (flush_cycle_enter targets p)
             = Some (''Confluence: Syncing ('' @ show_nat (length targets) @ '')''))
   \<and> (\<not> isSyncing (flush_cycle_finally p)
      \<and> liveSyncQueue (flush_cycle_finally p) = liveSyncQueue p
      \<and> (statusBarEl p \<noteq> None \<and> liveSyncQueue p = []
          \<longrightarrow> statusBarEl (flush_cycle_finally p) = Some ''Confluence: Idle'')
      \<and> (liveSyncQueue p \<noteq> [] \<longrightarrow> statusBarEl (flush_cycle_finally p) = statusBarEl p))
   \<and> (\<not> isSyncing p
     \<longrightarrow> isSyncing (ribbon_begin p) \<and> statusBarEl (ribbon_begin p) = statusBarEl p)"
proof -
  have modify: "liveSyncEnabled (settings p) \<and> shouldUseOnSaveSync p
      \<and> isFileEligibleForLiveSync E p (TFile fp ''md'') \<and> statusBarEl p \<noteq> None \<and> \<not> isSyncing p
     \<longrightarrow> liveSyncQueue (onVaultFileModified E (TFile fp ''md'') p) = set_add fp (liveSyncQueue p)
         \<and> \<not> isSyncing (onVaultFileModified E (TFile fp ''md'') p)
         \<and> statusBarEl (onVaultFileModified E (TFile fp ''md'') p)
             = Some (''Confluence: Pending (''
                     @ show_nat (length (liveSyncQueue (onVaultFileModified E (TFile fp ''md'') p)))
                     @ '')'')"
  proof (intro impI, elim conjE)
    assume on: "liveSyncEnabled (settings p)" "shouldUseOnSaveSync p"
      and ok: "isFileEligibleForLiveSync E p (TFile fp ''md'')"
      and bar: "statusBarEl p \<noteq> None" and idle: "\<not> isSyncing p"
    obtain old where old: "statusBarEl p = Some old" using bar by blast
    let ?q = "set_add fp (liveSyncQueue p)"
    let ?p1 = "p\<lparr>liveSyncQueue := ?q\<rparr>"
    have eq: "onVaultFileModified E (TFile fp ''md'') p
              = scheduleLiveSync None (updateStatusBar Pending (Some (length ?q)) ?p1)"
      using on ok by (simp add: onVaultFileModified_def Let_def)
    have q: "liveSyncQueue (onVaultFileModified E (TFile fp ''md'') p) = ?q"
      unfolding eq by (simp add: scheduleLiveSync_frame updateStatusBar_frame)
    have s: "\<not> isSyncing (onVaultFileModified E (TFile fp ''md'') p)"
      unfolding eq using idle by (simp add: scheduleLiveSync_frame updateStatusBar_frame)
    have "statusBarEl (onVaultFileModified E (TFile fp ''md'') p) = Some (status_label Pending (Some (length ?q)))"
      unfolding eq using old by (simp add: scheduleLiveSync_frame updateStatusBar_frame)
    then have l: "statusBarEl (onVaultFileModified E (TFile fp ''md'') p)
             = Some (''Confluence: Pending ('' @ show_nat (length ?q) @ '')'')"
      by (simp only: pending_label [OF set_add_nonempty])
    show "liveSyncQueue (onVaultFileModified E (TFile fp ''md'') p) = set_add fp (liveSyncQueue p)
         \<and> \<not> isSyncing (onVaultFileModified E (TFile fp ''md'') p)
         \<and> statusBarEl (onVaultFileModified E (TFile fp ''md'') p)
             = Some (''Confluence: Pending (''
                     @ show_nat (length (liveSyncQueue (onVaultFileModified E (TFile fp ''md'') p)))
                     @ '')'')"
      unfolding q using q s l by (intro conjI) simp_all
  qed
  have enter: "statusBarEl p \<noteq> None \<and> targets \<noteq> []
     \<longrightarrow> isSyncing (flush_cycle_enter targets p)
         \<and> statusBarEl (flush_cycle_enter targets p)
             = Some (''Confluence: Syncing ('' @ show_nat (length targets) @ '')'')"
  proof (intro impI, elim conjE)
    assume bar: "statusBarEl p \<noteq> None" and some: "targets \<noteq> []"
    obtain old where old: "statusBarEl p = Some old" using bar by blast
    have "statusBarEl (flush_cycle_enter targets p) = Some (status_label Syncing (Some (length targets)))"
      using old by (simp add: flush_cycle_enter_def updateStatusBar_frame)
    moreover have "0 < length targets" using some by simp
    ultimately have "statusBarEl (flush_cycle_enter targets p)
             = Some (''Confluence: Syncing ('' @ show_nat (length targets) @ '')'')"
      by (simp only: syncing_label)
    moreover have "isSyncing (flush_cycle_enter targets p)"
      by (simp add: flush_cycle_enter_def updateStatusBar_frame)
    ultimately show "isSyncing (flush_cycle_enter targets p)
         \<and> statusBarEl (flush_cycle_enter targets p)
             = Some (''Confluence: Syncing ('' @ show_nat (length targets) @ '')'')"
      by (rule conjI [rotated])
  qed
  have flag: "\<not> isSyncing (flush_cycle_finally p)"
    by (simp add: flush_cycle_finally_def Let_def updateStatusBar_frame)
  have queue: "liveSyncQueue (flush_cycle_finally p) = liveSyncQueue p"
    by (simp add: flush_cycle_finally_def Let_def updateStatusBar_frame)
  have idle: "statusBarEl p \<noteq> None \<and> liveSyncQueue p = []
          \<longrightarrow> statusBarEl (flush_cycle_finally p) = Some ''Confluence: Idle''"
  proof (intro impI, elim conjE)
    assume bar: "statusBarEl p \<noteq> None" and empty: "liveSyncQueue p = []"
    obtain old where old: "statusBarEl p = Some old" using bar by blast
    show "statusBarEl (flush_cycle_finally p) = Some ''Confluence: Idle''"
      using old empty
      by (simp add: flush_cycle_finally_def Let_def updateStatusBar_frame status_label_def)
  qed
  have kept: "liveSyncQueue p \<noteq> [] \<longrightarrow> statusBarEl (flush_cycle_finally p) = statusBarEl p"
    by (simp add: flush_cycle_finally_def Let_def)
  have ribbon: "\<not> isSyncing p
     \<longrightarrow> isSyncing (ribbon_begin p) \<and> statusBarEl (ribbon_begin p) = statusBarEl p"
    by (simp add: ribbon_begin_def publisher_call_def)
  show ?thesis
    by (rule conjI [OF modify conjI [OF enter
          conjI [OF conjI [OF flag conjI [OF queue conjI [OF idle kept]]] ribbon]]])
qed

theorem status_transitions_witness:
  "statusBarEl (onVaultFileModified demo_env (TFile ''Docs/a.md'' ''md'') demo_plugin)
     = Some ''Confluence: Pending (1)''
   \<and> liveSyncQueue (onVaultFileModified demo_env (TFile ''Docs/a.md'' ''md'') demo_plugin) = [''Docs/a.md'']
   \<and> statusBarEl (flush_cycle_enter [(''Docs/a.md'', ''md5:text'')] demo_plugin)
     = Some ''Confluence: Syncing (1)''
   \<and> statusBarEl finishing_plugin = Some ''Confluence: Syncing (1)''
   \<and> liveSyncQueue finishing_plugin = []
   \<and> statusBarEl (flush_cycle_finally finishing_plugin) = Some ''Confluence: Idle''
   \<and> isSyncing (flush_cycle_finally finishing_plugin) = False
   \<and> liveSyncQueue interrupted_plugin = [''Docs/b.md'']
   \<and> statusBarEl (flush_cycle_finally interrupted_plugin) = Some ''Confluence: Pending (1)''
   \<and> liveSyncQueue (flush_cycle_finally interrupted_plugin) = [''Docs/b.md'']
   \<and> isSyncing (flush_cycle_finally interrupted_plugin) = False"
proof -
  let ?ts = "[(''Docs/a.md'', ''md5:text'')]"
  note m = status_transitions [of demo_plugin demo_env "''Docs/a.md''" ?ts, THEN conjunct1]
  note e = status_transitions [of demo_plugin demo_env "''Docs/a.md''" ?ts, THEN conjunct2, THEN conjunct1]
  note f = status_transitions [of finishing_plugin demo_env "''Docs/a.md''" ?ts,
      THEN conjunct2, THEN conjunct2, THEN conjunct1]
  note i = status_transitions [of interrupted_plugin demo_env "''Docs/a.md''" ?ts,
      THEN conjunct2, THEN conjunct2, THEN conjunct1]
  have pre_m: "liveSyncEnabled (settings demo_plugin) \<and> shouldUseOnSaveSync demo_plugin
      \<and> isFileEligibleForLiveSync demo_env demo_plugin (TFile ''Docs/a.md'' ''md'')
      \<and> statusBarEl demo_plugin \<noteq> None \<and> \<not> isSyncing demo_plugin"
    by (simp add: onVaultFileModified_def shouldUseOnSaveSync_def isFileEligibleForLiveSync_def
        getNormalizedBacklinkKey_def stripTrailingSlashes_def startsWith_def set_add_def
        scheduleLiveSync_def updateStatusBar_def status_label_def detail_suffix_def
        digit_char_def Let_def demo_env_def demo_plugin_def demo_settings_def queued_plugin_def)
  have queue: "liveSyncQueue (onVaultFileModified demo_env (TFile ''Docs/a.md'' ''md'') demo_plugin) = [''Docs/a.md'']"
    using m pre_m by (simp add: set_add_def demo_env_def demo_plugin_def demo_settings_def
        queued_plugin_def)
  have pending: "statusBarEl (onVaultFileModified demo_env (TFile ''Docs/a.md'' ''md'') demo_plugin)
     = Some ''Confluence: Pending (1)''"
    using m pre_m queue by (simp add: digit_char_def)
  have pre_e: "statusBarEl demo_plugin \<noteq> None \<and> ?ts \<noteq> []" by (simp add:
      demo_env_def demo_plugin_def demo_settings_def queued_plugin_def)
  have syncing: "statusBarEl (flush_cycle_enter ?ts demo_plugin) = Some ''Confluence: Syncing (1)''"
    using e pre_e by (simp add: digit_char_def)
  have fin: "statusBarEl finishing_plugin = Some ''Confluence: Syncing (1)''
             \<and> liveSyncQueue finishing_plugin = []"
    by (simp add: finishing_plugin_def flush_cycle_save_def publish_target_resume_def
        doPublish_resume_def updateBacklinkState_def ensureBacklinkState_def
        set_backlink_state_def empty_results_def set_hash_def saveData_def
        syncing_plugin_def queued_plugin_def demo_plugin_def demo_settings_def demo_env_def
        flush_drain_def flush_cycle_enter_def publisher_call_def updateStatusBar_def
        status_label_def detail_suffix_def digit_char_def Let_def)
  have int: "statusBarEl interrupted_plugin = Some ''Confluence: Pending (1)''
             \<and> liveSyncQueue interrupted_plugin = [''Docs/b.md'']"
    by (simp add: interrupted_plugin_def flush_cycle_save_def publish_target_resume_def
        doPublish_resume_def updateBacklinkState_def ensureBacklinkState_def
        set_backlink_state_def empty_results_def set_hash_def saveData_def
        syncing_plugin_def queued_plugin_def demo_plugin_def demo_settings_def demo_env_def
        flush_drain_def flush_cycle_enter_def publisher_call_def
        onVaultFileModified_def shouldUseOnSaveSync_def isFileEligibleForLiveSync_def
        getNormalizedBacklinkKey_def stripTrailingSlashes_def startsWith_def set_add_def
        scheduleLiveSync_def updateStatusBar_def
        status_label_def detail_suffix_def digit_char_def Let_def)
  have f_idle: "statusBarEl (flush_cycle_finally finishing_plugin) = Some ''Confluence: Idle''"
    using f [THEN conjunct2, THEN conjunct2, THEN conjunct1] fin by simp
  have f_flag: "isSyncing (flush_cycle_finally finishing_plugin) = False"
    using f [THEN conjunct1] by simp
  have i_kept: "statusBarEl (flush_cycle_finally interrupted_plugin) = Some ''Confluence: Pending (1)''"
    using i [THEN conjunct2, THEN conjunct2, THEN conjunct2] int by simp
  have i_queue: "liveSyncQueue (flush_cycle_finally interrupted_plugin) = [''Docs/b.md'']"
    using i [THEN conjunct2, THEN conjunct1] int by simp
  have i_flag: "isSyncing (flush_cycle_finally interrupted_plugin) = False"
    using i [THEN conjunct1] by simp
  show ?thesis
    by (rule conjI [OF pending conjI [OF queue conjI [OF syncing conjI [OF fin [THEN conjunct1]
          conjI [OF fin [THEN conjunct2] conjI [OF f_idle conjI [OF f_flag
          conjI [OF int [THEN conjunct2] conjI [OF i_kept conjI [OF i_queue i_flag]]]]]]]]]])
qed

text \<open>
  The claim as stated fails while a cycle is in flight: a modify event for
  \<^verbatim>\<open>Docs/b.md\<close> during the live-sync cycle of \<open>syncing_plugin\<close> replaces Syncing (1) by
  Pending (1); and during a publish started from the ribbon the status stays Idle.
\<close>

theorem status_transitions_counterexample:
  "isSyncing syncing_plugin \<and> publishes_in_flight (events syncing_plugin) = 1
   \<and> statusBarEl syncing_plugin = Some ''Confluence: Syncing (1)''
   \<and> isSyncing (onVaultFileModified demo_env (TFile ''Docs/b.md'' ''md'') syncing_plugin)
   \<and> publishes_in_flight (events (onVaultFileModified demo_env (TFile ''Docs/b.md'' ''md'') syncing_plugin)) = 1
   \<and> statusBarEl (onVaultFileModified demo_env (TFile ''Docs/b.md'' ''md'') syncing_plugin)
       = Some ''Confluence: Pending (1)''
   \<and> isSyncing (ribbon_begin demo_plugin) \<and> publishes_in_flight (events (ribbon_begin demo_plugin)) = 1
   \<and> statusBarEl (ribbon_begin demo_plugin) = Some ''Confluence: Idle''"
  by (simp add: syncing_plugin_def queued_plugin_def demo_plugin_def demo_settings_def demo_env_def
      flush_drain_def flush_cycle_enter_def publisher_call_def ribbon_begin_def
      publishes_in_flight_def onVaultFileModified_def shouldUseOnSaveSync_def
      isFileEligibleForLiveSync_def getNormalizedBacklinkKey_def stripTrailingSlashes_def
      startsWith_def set_add_def scheduleLiveSync_def updateStatusBar_def status_label_def
      detail_suffix_def digit_char_def Let_def)

end
